theory Spec2Isabelle
  imports Main "HOL-Library.Sublist"
begin

chapter \<open>CPM.cu: linear projections, the head module and the Marlin kernel instantiations\<close>

text \<open>
  A shallow embedding of \<^verbatim>\<open>src/model/linear.cuh\<close> (the function \<^verbatim>\<open>linear\<close> and the
  structs \<^verbatim>\<open>Linear\<close> and \<^verbatim>\<open>LMHead\<close>) and of the explicit instantiations of the
  \<^verbatim>\<open>marlin::Marlin\<close> kernel template. The definitions come first, the theorems
  after them.

  Conventions of the embedding.
  \<^item> Every operation is enqueued on the one \<^verbatim>\<open>Stream\<close> that is passed along; a stream
    runs its operations in the order they were enqueued, so a sequence of calls is the
    composition of their effects on the device memory, and the stream argument is left
    out.
  \<^item> The element type \<^verbatim>\<open>T\<close> is a type variable \<open>'a\<close> with exact arithmetic (a
    commutative semiring); the rounding of the floating-point types is not modelled.
    The number \<open>sz\<close> that the functions take first stands for \<^verbatim>\<open>sizeof(T)\<close>.
  \<^item> Dimensions and token counts are the non-negative values of the C++ \<^verbatim>\<open>int\<close>
    fields and parameters, as natural numbers.
\<close>

section \<open>Device memory, pointers and outcomes\<close>

text \<open>
  A pointer is a device address in bytes, \<^verbatim>\<open>nullptr\<close> is address 0. The device memory
  is seen through \<^verbatim>\<open>T*\<close>: it gives the \<^verbatim>\<open>T\<close> object stored at an address. The address
  of \<^verbatim>\<open>p[i]\<close> is \<open>elem sz p i\<close>.
\<close>

type_synonym ptr = nat

type_synonym 'a mem = "ptr \<Rightarrow> 'a"

definition nullptr :: ptr where
  "nullptr = 0"

definition elem :: "nat \<Rightarrow> ptr \<Rightarrow> nat \<Rightarrow> ptr" where
  "elem sz p i = p + i * sz"

text \<open>
  \<open>write_array sz p n f mem\<close> is the memory after \<^verbatim>\<open>p[e] = f(e)\<close> for every \<open>e < n\<close>,
  all other objects left as they are. The device kernels and copies below are written
  with it; what they store is computed from the memory before the call.
\<close>

definition write_array :: "nat \<Rightarrow> ptr \<Rightarrow> nat \<Rightarrow> (nat \<Rightarrow> 'a) \<Rightarrow> 'a mem \<Rightarrow> 'a mem" where
  "write_array sz p n f mem =
     (\<lambda>a. if p \<le> a \<and> sz dvd (a - p) \<and> (a - p) div sz < n then f ((a - p) div sz)
          else mem a)"

text \<open>The bytes \<open>p, ..., p + n - 1\<close> of a buffer.\<close>

definition byte_range :: "ptr \<Rightarrow> nat \<Rightarrow> ptr set" where
  "byte_range p n = {p ..< p + n}"

text \<open>
  What a call does: it returns a value and leaves a state, or it throws and leaves the
  state of the moment of the throw, or its behaviour is undefined (it reads a pointer
  member that was never assigned, or a signed \<^verbatim>\<open>int\<close> product overflows).
\<close>

datatype exn = invalid_argument string | OutOfDeviceMemory

datatype ('r, 's) outcome = Returned 'r 's | Thrown exn 's | Undefined

text \<open>
  The byte counts of the source are written \<^verbatim>\<open>a * b * sizeof(T)\<close> with \<^verbatim>\<open>int\<close> operands
  \<open>a\<close> and \<open>b\<close>: the first product is an \<^verbatim>\<open>int\<close> product, undefined when it overflows;
  the second is a \<^verbatim>\<open>size_t\<close> product, which wraps around at \<open>2 ^ 64\<close>.
\<close>

definition INT_MAX :: nat where
  "INT_MAX = 2147483647"

definition int_mul :: "nat \<Rightarrow> nat \<Rightarrow> nat option" where
  "int_mul a b = (if a * b \<le> INT_MAX then Some (a * b) else None)"

definition size_t_mul :: "nat \<Rightarrow> nat \<Rightarrow> nat" where
  "size_t_mul a b = (a * b) mod 2 ^ 64"

text \<open>
  \<^verbatim>\<open>cudaMemcpy(dst, src, count, cudaMemcpyHostToDevice)\<close> of the CUDA runtime: \<open>count\<close>
  bytes of the host array \<open>src\<close> (given by its elements) are copied to \<open>dst\<close>. The source
  ignores the status it returns.
\<close>

definition cudaMemcpy :: "nat \<Rightarrow> ptr \<Rightarrow> (nat \<Rightarrow> 'a) \<Rightarrow> nat \<Rightarrow> 'a mem \<Rightarrow> 'a mem" where
  "cudaMemcpy sz dst src count mem = write_array sz dst (count div sz) src mem"

text \<open>
  \<^verbatim>\<open>std::string::find\<close>: the position of the first occurrence of \<open>pat\<close> in \<open>s\<close>, or
  \<^verbatim>\<open>npos\<close> when there is none.
\<close>

definition npos :: "nat option" where
  "npos = None"

fun string_find :: "string \<Rightarrow> string \<Rightarrow> nat option" where
  "string_find [] pat = (if pat = [] then Some 0 else npos)"
| "string_find (c # s) pat =
     (if take (length pat) (c # s) = pat then Some 0
      else map_option Suc (string_find s pat))"

section \<open>The memory arena\<close>

text \<open>
  Modelled from the spec: the struct \<^verbatim>\<open>Memory\<close> is declared in a header that is not
  among the sources; only the calls \<^verbatim>\<open>memory->allocate_for_model(...)\<close> and
  \<^verbatim>\<open>memory->allocate(...)\<close> are. By the spec (3, 4.1) the arena holds a model region
  that only grows, out of a backing pool of a configured byte capacity, and a scratch
  region addressed by byte offsets from its base; next offsets are rounded to an
  alignment boundary ("e.g. 256 bytes"), here a field of the arena.
\<close>

record Memory =
  model_base :: ptr
  model_used :: nat
  pool_capacity :: nat
  scratch_base :: ptr
  alignment :: nat

text \<open>
  Modelled from the spec: \<^verbatim>\<open>Memory::allocate_for_model\<close> is not among the sources. It is
  the spec's \<^verbatim>\<open>allocate_persistent(byte_size) -> address\<close> (4.1): it "grows the model
  region; never reused; fails with \<^verbatim>\<open>OutOfDeviceMemory\<close> if the backing pool is
  exhausted".
\<close>

definition allocate_for_model :: "Memory \<Rightarrow> nat \<Rightarrow> (ptr, Memory) outcome" where
  "allocate_for_model memory byte_size =
     (if pool_capacity memory < model_used memory + byte_size
      then Thrown OutOfDeviceMemory memory
      else Returned (model_base memory + model_used memory)
             (memory\<lparr>model_used := model_used memory + byte_size\<rparr>))"

text \<open>
  Modelled from the spec: \<^verbatim>\<open>Memory::allocate\<close> is not among the sources. It is the spec's
  \<^verbatim>\<open>allocate_scratch(out_ptr_slot, current_offset, byte_size) -> next_offset\<close> (4.1):
  it "computes \<open>next_offset = current_offset + byte_size\<close> (rounded to an alignment
  boundary, e.g. 256 bytes), and binds \<open>out_ptr_slot\<close> to \<open>scratch_base +
  current_offset\<close>", and it is "purely an address-arithmetic operation". The rounding is
  taken to be upwards, to the next multiple of the alignment. The slot is a pointer
  member of the caller: \<open>allocate\<close> returns the address for it together with the next
  offset, and the caller stores the address.
\<close>

definition round_up :: "nat \<Rightarrow> nat \<Rightarrow> nat" where
  "round_up x a = (x + a - 1) div a * a"

definition allocate :: "Memory \<Rightarrow> nat \<Rightarrow> nat \<Rightarrow> ptr \<times> nat" where
  "allocate memory current_offset byte_size =
     (scratch_base memory + current_offset,
      round_up (current_offset + byte_size) (alignment memory))"

text \<open>
  Modelled from the spec: a layout pass, as the model build composes the allocation
  calls "across the whole model graph" (4.1) and replays them (8). It runs the calls of a
  list of requests (slot, byte size), each starting at the offset that the one before
  returned. The slots are the state; the pass returns the offset after the last
  request.
\<close>

fun allocate_all ::
  "Memory \<Rightarrow> ('slot \<times> nat) list \<Rightarrow> ('slot \<Rightarrow> ptr option) \<Rightarrow> nat \<Rightarrow> ('slot \<Rightarrow> ptr option) \<times> nat" where
  "allocate_all memory [] slots offset = (slots, offset)"
| "allocate_all memory ((slot, byte_size) # reqs) slots offset =
     (case allocate memory offset byte_size of
        (p, next) \<Rightarrow> allocate_all memory reqs (slots(slot \<mapsto> p)) next)"

text \<open>
  Modelled from the spec: the buffers (address, byte size) that successive allocation
  calls with the given byte sizes hand out, the first call starting at \<open>offset\<close>.
\<close>

fun allocations :: "Memory \<Rightarrow> nat list \<Rightarrow> nat \<Rightarrow> (ptr \<times> nat) list" where
  "allocations memory [] offset = []"
| "allocations memory (byte_size # sizes) offset =
     (case allocate memory offset byte_size of
        (p, next) \<Rightarrow> (p, byte_size) # allocations memory sizes next)"

section \<open>The vendor matrix multiply and the elementwise kernels\<close>

text \<open>
  \<^verbatim>\<open>cublasGemmEx\<close> is the vendor's routine, not code of the repository (the spec, 6,
  treats the call as a black box). It is modelled by the contract the vendor documents, \<open>C := alpha * op(A) * op(B) + beta * C\<close> for column-major
  matrices with leading dimensions: \<open>op(A)\<close> is \<open>m \<times> k\<close>, \<open>op(B)\<close> is \<open>k \<times> n\<close>, \<open>C\<close> is
  \<open>m \<times> n\<close>, and entry \<open>(r, c)\<close> of a matrix \<open>X\<close> with leading dimension \<open>ld\<close> is
  \<^verbatim>\<open>X[r + c * ld]\<close>. The handle, the data type tags, the compute type and the algorithm
  selector are left out; the status the routine returns (which \<^verbatim>\<open>cublasCheck\<close> tests)
  is taken to be success, so the checks of the arguments that the vendor makes are not
  modelled. The contract asks for \<open>ldc \<ge> m\<close>, which holds at both calls in \<^verbatim>\<open>linear\<close>.
\<close>

datatype cublasOperation_t = CUBLAS_OP_N | CUBLAS_OP_T

definition op_entry :: "nat \<Rightarrow> 'a mem \<Rightarrow> cublasOperation_t \<Rightarrow> ptr \<Rightarrow> nat \<Rightarrow> nat \<Rightarrow> nat \<Rightarrow> 'a" where
  "op_entry sz mem transX X ld r c =
     (case transX of
        CUBLAS_OP_N \<Rightarrow> mem (elem sz X (r + c * ld))
      | CUBLAS_OP_T \<Rightarrow> mem (elem sz X (c + r * ld)))"

definition cublasGemmEx ::
  "nat \<Rightarrow> cublasOperation_t \<Rightarrow> cublasOperation_t \<Rightarrow> nat \<Rightarrow> nat \<Rightarrow> nat \<Rightarrow> 'a \<Rightarrow> ptr \<Rightarrow> nat \<Rightarrow>
   ptr \<Rightarrow> nat \<Rightarrow> 'a \<Rightarrow> ptr \<Rightarrow> nat \<Rightarrow> ('a::comm_semiring_1) mem \<Rightarrow> 'a mem" where
  "cublasGemmEx sz transa transb m n k alpha A lda B ldb beta C ldc mem =
     write_array sz C (ldc * n)
       (\<lambda>e. let r = e mod ldc; c = e div ldc in
          if r < m then
            alpha * (\<Sum>l\<leftarrow>[0..<k]. op_entry sz mem transa A lda r l * op_entry sz mem transb B ldb l c)
            + beta * mem (elem sz C e)
          else mem (elem sz C e))
       mem"

text \<open>
  Modelled from the spec: \<^verbatim>\<open>batched_add\<close> is defined in \<^verbatim>\<open>elementwise.cuh\<close>, which is
  not among the sources. By the spec (4.3) it is the pass in which "the bias vector is
  broadcast-added to every output row": \<^verbatim>\<open>c[i][j] = a[i][j] + b[j]\<close> for \<open>num_tokens\<close>
  rows of \<open>dim\<close> elements.
\<close>

definition batched_add ::
  "nat \<Rightarrow> nat \<Rightarrow> nat \<Rightarrow> ptr \<Rightarrow> ptr \<Rightarrow> ptr \<Rightarrow> ('a::comm_semiring_1) mem \<Rightarrow> 'a mem" where
  "batched_add sz num_tokens dim a b c mem =
     write_array sz c (num_tokens * dim)
       (\<lambda>e. mem (elem sz a e) + mem (elem sz b (e mod dim))) mem"

text \<open>
  Modelled from the spec: \<^verbatim>\<open>elementwise_scale\<close> is defined in \<^verbatim>\<open>elementwise.cuh\<close>, which
  is not among the sources. By the spec (4.4) it "rescales every element of the input
  activation by a fixed scalar factor", writing into the buffer given last:
  \<^verbatim>\<open>b[e] = v * a[e]\<close> for the \<open>num_tokens * dim\<close> elements.
\<close>

definition elementwise_scale ::
  "nat \<Rightarrow> nat \<Rightarrow> nat \<Rightarrow> ptr \<Rightarrow> 'a \<Rightarrow> ptr \<Rightarrow> ('a::comm_semiring_1) mem \<Rightarrow> 'a mem" where
  "elementwise_scale sz num_tokens dim a v b mem =
     write_array sz b (num_tokens * dim) (\<lambda>e. v * mem (elem sz a e)) mem"

section \<open>The function \<^verbatim>\<open>linear\<close>\<close>

definition linear ::
  "nat \<Rightarrow> nat \<Rightarrow> nat \<Rightarrow> nat \<Rightarrow> ptr \<Rightarrow> ptr \<Rightarrow> ptr \<Rightarrow> bool \<Rightarrow> bool \<Rightarrow> ('a::comm_semiring_1) mem \<Rightarrow> 'a mem" where
  "linear sz num_tokens dim_in dim_out input weight output transposed inplace mem =
     (let alpha = 1;
          beta = (if inplace then 1 else 0)
      in if transposed then
           cublasGemmEx sz CUBLAS_OP_T CUBLAS_OP_N dim_out num_tokens dim_in
             alpha weight dim_in input dim_in beta output dim_out mem
         else
           cublasGemmEx sz CUBLAS_OP_N CUBLAS_OP_N dim_out num_tokens dim_in
             alpha weight dim_out input dim_in beta output dim_out mem)"

text \<open>
  The matrices of the specification, for stating what \<^verbatim>\<open>linear\<close> computes. A buffer \<open>p\<close>
  holds a row-major matrix with \<open>cols\<close> columns: entry \<open>(i, j)\<close> is \<^verbatim>\<open>p[i * cols + j]\<close>.
  \<open>A_times_Wt\<close> is entry \<open>(i, j)\<close> of \<open>A \<times> W\<^sup>T\<close> for \<open>A\<close> of \<open>dim_in\<close> columns and \<open>W\<close> laid
  out \<open>dim_out \<times> dim_in\<close>; \<open>A_times_W\<close> is entry \<open>(i, j)\<close> of \<open>A \<times> W\<close> for \<open>W\<close> laid out
  \<open>dim_in \<times> dim_out\<close>.
\<close>

definition row_major :: "nat \<Rightarrow> 'a mem \<Rightarrow> ptr \<Rightarrow> nat \<Rightarrow> nat \<Rightarrow> nat \<Rightarrow> 'a" where
  "row_major sz mem p cols i j = mem (elem sz p (i * cols + j))"

definition A_times_Wt ::
  "nat \<Rightarrow> ('a::comm_semiring_1) mem \<Rightarrow> nat \<Rightarrow> nat \<Rightarrow> ptr \<Rightarrow> ptr \<Rightarrow> nat \<Rightarrow> nat \<Rightarrow> 'a" where
  "A_times_Wt sz mem dim_in dim_out A W i j =
     (\<Sum>k\<leftarrow>[0..<dim_in]. row_major sz mem A dim_in i k * row_major sz mem W dim_in j k)"

definition A_times_W ::
  "nat \<Rightarrow> ('a::comm_semiring_1) mem \<Rightarrow> nat \<Rightarrow> nat \<Rightarrow> ptr \<Rightarrow> ptr \<Rightarrow> nat \<Rightarrow> nat \<Rightarrow> 'a" where
  "A_times_W sz mem dim_in dim_out A W i j =
     (\<Sum>k\<leftarrow>[0..<dim_in]. row_major sz mem A dim_in i k * row_major sz mem W dim_out k j)"

section \<open>The struct \<^verbatim>\<open>Linear\<close>\<close>

text \<open>
  The pointer members are not initialised by the constructor: a member holds \<open>None\<close>
  until it is assigned.
\<close>

record Linear =
  dim_in :: nat
  dim_out :: nat
  transposed :: bool
  has_bias :: bool
  "output" :: "ptr option"
  weight :: "ptr option"
  bias :: "ptr option"

definition Linear_ctor :: "nat \<Rightarrow> nat \<Rightarrow> bool \<Rightarrow> bool \<Rightarrow> Linear" where
  "Linear_ctor d_in d_out is_transposed bias_flag =
     \<lparr>dim_in = d_in, dim_out = d_out, transposed = is_transposed, has_bias = bias_flag,
      output = None, weight = None, bias = None\<rparr>"

definition init_weight_ptr ::
  "nat \<Rightarrow> 'm Linear_scheme \<Rightarrow> Memory \<Rightarrow> (unit, 'm Linear_scheme \<times> Memory) outcome" where
  "init_weight_ptr sz this memory =
     (case int_mul (dim_in this) (dim_out this) of
        None \<Rightarrow> Undefined
      | Some n \<Rightarrow>
          (case allocate_for_model memory (size_t_mul n sz) of
             Returned w memory1 \<Rightarrow>
               (let this1 = this\<lparr>weight := Some w\<rparr> in
                if has_bias this1 then
                  (case allocate_for_model memory1 (size_t_mul (dim_out this1) sz) of
                     Returned b memory2 \<Rightarrow> Returned () (this1\<lparr>bias := Some b\<rparr>, memory2)
                   | Thrown e memory2 \<Rightarrow> Thrown e (this1, memory2)
                   | Undefined \<Rightarrow> Undefined)
                else Returned () (this1, memory1))
           | Thrown e memory1 \<Rightarrow> Thrown e (this, memory1)
           | Undefined \<Rightarrow> Undefined))"

definition init_output_ptr ::
  "nat \<Rightarrow> 'm Linear_scheme \<Rightarrow> Memory \<Rightarrow> nat \<Rightarrow> nat \<Rightarrow> (nat, 'm Linear_scheme) outcome" where
  "init_output_ptr sz this memory num_tokens offset =
     (case int_mul num_tokens (dim_out this) of
        None \<Rightarrow> Undefined
      | Some n \<Rightarrow>
          (case allocate memory offset (size_t_mul n sz) of
             (p, next) \<Rightarrow> Returned next (this\<lparr>output := Some p\<rparr>)))"

definition load_to_storage ::
  "nat \<Rightarrow> 'm Linear_scheme \<Rightarrow> string \<Rightarrow> (nat \<Rightarrow> 'a) \<Rightarrow> 'a mem \<Rightarrow> (unit, 'a mem) outcome" where
  "load_to_storage sz this name host mem =
     (if string_find name ''weight'' \<noteq> npos then
        (case weight this of
           None \<Rightarrow> Undefined
         | Some w \<Rightarrow>
             (case int_mul (dim_in this) (dim_out this) of
                None \<Rightarrow> Undefined
              | Some n \<Rightarrow> Returned () (cudaMemcpy sz w host (size_t_mul n sz) mem)))
      else if string_find name ''bias'' \<noteq> npos then
        (case bias this of
           None \<Rightarrow> Undefined
         | Some b \<Rightarrow> Returned () (cudaMemcpy sz b host (size_t_mul (dim_out this) sz) mem))
      else Thrown (invalid_argument (''Unsupported name '' @ name)) mem)"

definition prefill ::
  "nat \<Rightarrow> 'm Linear_scheme \<Rightarrow> nat \<Rightarrow> ptr \<Rightarrow> ptr \<Rightarrow> bool \<Rightarrow> ('a::comm_semiring_1) mem
   \<Rightarrow> (unit, 'a mem) outcome" where
  "prefill sz this num_tokens input tgt inplace mem =
     (case (if tgt = nullptr then output this else Some tgt) of
        None \<Rightarrow> Undefined
      | Some tgt1 \<Rightarrow>
          (case weight this of
             None \<Rightarrow> Undefined
           | Some w \<Rightarrow>
               (let mem1 = linear sz num_tokens (dim_in this) (dim_out this) input w tgt1
                             (transposed this) inplace mem
                in if has_bias this then
                     (case bias this of
                        None \<Rightarrow> Undefined
                      | Some b \<Rightarrow>
                          Returned () (batched_add sz num_tokens (dim_out this) tgt1 b tgt1 mem1))
                   else Returned () mem1)))"

section \<open>The struct \<^verbatim>\<open>LMHead\<close>\<close>

record 'a LMHead = Linear +
  tmp_hidden_size :: "ptr option"
  head_scale :: 'a

definition LMHead_ctor :: "nat \<Rightarrow> nat \<Rightarrow> 'a \<Rightarrow> bool \<Rightarrow> bool \<Rightarrow> 'a LMHead" where
  "LMHead_ctor d_in d_out scale is_transposed bias_flag =
     \<lparr>dim_in = d_in, dim_out = d_out, transposed = is_transposed, has_bias = bias_flag,
      output = None, weight = None, bias = None,
      tmp_hidden_size = None, head_scale = scale\<rparr>"

definition LMHead_init_output_ptr ::
  "nat \<Rightarrow> 'a LMHead \<Rightarrow> Memory \<Rightarrow> nat \<Rightarrow> nat \<Rightarrow> (nat, 'a LMHead) outcome" where
  "LMHead_init_output_ptr sz this memory num_tokens offset =
     (case init_output_ptr sz this memory num_tokens offset of
        Returned offset1 this1 \<Rightarrow>
          (case int_mul num_tokens (dim_in this1) of
             None \<Rightarrow> Undefined
           | Some n \<Rightarrow>
               (case allocate memory offset1 (size_t_mul n sz) of
                  (p, offset2) \<Rightarrow> Returned offset2 (this1\<lparr>tmp_hidden_size := Some p\<rparr>)))
      | Thrown e this1 \<Rightarrow> Thrown e this1
      | Undefined \<Rightarrow> Undefined)"

definition LMHead_prefill ::
  "nat \<Rightarrow> ('a::comm_semiring_1) LMHead \<Rightarrow> nat \<Rightarrow> ptr \<Rightarrow> ptr \<Rightarrow> bool \<Rightarrow> 'a mem
   \<Rightarrow> (unit, 'a mem) outcome" where
  "LMHead_prefill sz this num_tokens input tgt inplace mem =
     (case tmp_hidden_size this of
        None \<Rightarrow> Undefined
      | Some tmp \<Rightarrow>
          prefill sz this num_tokens tmp tgt inplace
            (elementwise_scale sz num_tokens (dim_in this) input (head_scale this) tmp mem))"

section \<open>The Marlin kernel instantiations\<close>

text \<open>
  The instantiation file expands four nested macros. Each expansion is a sequence of
  explicit template instantiations \<^verbatim>\<open>marlin::Marlin<dtype, qtype, block_size, split,
  warp_m, warp_n, pack_size, false, true, G>\<close>; a macro is modelled as the list of
  template argument tuples it expands to, in the order of the expansion. The eighth and
  ninth template arguments have no name in the macros; they are called \<open>arg8\<close> and
  \<open>arg9\<close>. The tenth is the group-size argument.
\<close>

datatype scalar_type = nv_bfloat16

datatype quant_type = kU4 | kU8

record marlin_inst =
  dtype :: scalar_type
  qtype :: quant_type
  block_size :: int
  split :: int
  warp_m :: int
  warp_n :: int
  pack_size :: int
  arg8 :: bool
  arg9 :: bool
  group_size :: int

definition Marlin ::
  "scalar_type \<Rightarrow> quant_type \<Rightarrow> int \<Rightarrow> int \<Rightarrow> int \<Rightarrow> int \<Rightarrow> int \<Rightarrow> bool \<Rightarrow> bool \<Rightarrow> int \<Rightarrow> marlin_inst" where
  "Marlin d q bs s wm wn ps a8 a9 g =
     \<lparr>dtype = d, qtype = q, block_size = bs, split = s, warp_m = wm, warp_n = wn,
      pack_size = ps, arg8 = a8, arg9 = a9, group_size = g\<rparr>"

definition MARLIN_INST_SPLIT ::
  "scalar_type \<Rightarrow> quant_type \<Rightarrow> int \<Rightarrow> int \<Rightarrow> int \<Rightarrow> int \<Rightarrow> int \<Rightarrow> marlin_inst list" where
  "MARLIN_INST_SPLIT d q bs s wm wn ps =
     [Marlin d q bs s wm wn ps False True (- 1),
      Marlin d q bs s wm wn ps False True 2,
      Marlin d q bs s wm wn ps False True 4,
      Marlin d q bs s wm wn ps False True 8]"

definition MARLIN_INST_ALL_SPLITS ::
  "scalar_type \<Rightarrow> quant_type \<Rightarrow> int \<Rightarrow> int \<Rightarrow> int \<Rightarrow> int \<Rightarrow> marlin_inst list" where
  "MARLIN_INST_ALL_SPLITS d q bs wm wn ps =
     MARLIN_INST_SPLIT d q bs 1 wm wn ps
     @ MARLIN_INST_SPLIT d q bs 2 wm wn ps
     @ MARLIN_INST_SPLIT d q bs 3 wm wn ps
     @ MARLIN_INST_SPLIT d q bs 4 wm wn ps"

definition MARLIN_INST_QTYPE ::
  "scalar_type \<Rightarrow> int \<Rightarrow> int \<Rightarrow> int \<Rightarrow> int \<Rightarrow> marlin_inst list" where
  "MARLIN_INST_QTYPE d bs wm wn ps =
     MARLIN_INST_ALL_SPLITS d kU4 bs wm wn ps
     @ MARLIN_INST_ALL_SPLITS d kU8 bs wm wn ps"

definition MARLIN_INST_CONFIG :: "int \<Rightarrow> int \<Rightarrow> int \<Rightarrow> int \<Rightarrow> marlin_inst list" where
  "MARLIN_INST_CONFIG bs wm wn ps = MARLIN_INST_QTYPE nv_bfloat16 bs wm wn ps"

text \<open>
  The instantiations of the file. They stand under \<^verbatim>\<open>#ifdef ENABLE_DTYPE_BF16\<close>: the
  argument says whether the build defines that macro.
\<close>

definition marlin_instantiations :: "bool \<Rightarrow> marlin_inst list" where
  "marlin_instantiations ENABLE_DTYPE_BF16 =
     (if ENABLE_DTYPE_BF16 then
        MARLIN_INST_CONFIG 256 16 4 4
        @ MARLIN_INST_CONFIG 256 8 8 4
        @ MARLIN_INST_CONFIG 128 8 4 4
        @ MARLIN_INST_CONFIG 128 4 8 4
      else [])"

text \<open>The block size and warp tiling triples of the four \<^verbatim>\<open>MARLIN_INST_CONFIG\<close> lines.\<close>

definition block_warp_shapes :: "(int \<times> int \<times> int) set" where
  "block_warp_shapes = {(256, 16, 4), (256, 8, 8), (128, 8, 4), (128, 4, 8)}"

section \<open>A worked example\<close>

text \<open>
  A small arena, a projection and a head module over the integers, with two-byte
  elements, for evaluating the operations on concrete inputs. Every device object holds
  its own address; element \<open>e\<close> of the host buffer is \<open>7 + e\<close>.
\<close>

definition example_memory :: Memory where
  "example_memory =
     \<lparr>model_base = 4096, model_used = 0, pool_capacity = 4096,
      scratch_base = 8192, alignment = 256\<rparr>"

definition example_mem :: "int mem" where
  "example_mem = (\<lambda>a. int a)"

definition example_host :: "nat \<Rightarrow> int" where
  "example_host = (\<lambda>e. 7 + int e)"

definition example_linear :: Linear where
  "example_linear =
     \<lparr>dim_in = 2, dim_out = 3, transposed = True, has_bias = True,
      output = Some 8192, weight = Some 4096, bias = Some 4108\<rparr>"

definition example_head :: "int LMHead" where
  "example_head =
     \<lparr>dim_in = 2, dim_out = 3, transposed = True, has_bias = True,
      output = Some 8192, weight = Some 4096, bias = Some 4108,
      tmp_hidden_size = Some 8448, head_scale = 5\<rparr>"

text \<open>
  A projection with the weight layout that is not transposed, and a memory of two-byte
  elements that holds the input row \<open>(1, 0)\<close> at address 32 and the weight matrix with
  rows \<open>(0, 1)\<close> and \<open>(0, 0)\<close> at address 16; every other object, the bias at address 48
  included, is 0.
\<close>

definition example_linear_N :: Linear where
  "example_linear_N =
     \<lparr>dim_in = 2, dim_out = 2, transposed = False, has_bias = True,
      output = Some 64, weight = Some 16, bias = Some 48\<rparr>"

definition example_mem_N :: "int mem" where
  "example_mem_N = (\<lambda>a. if a = 32 \<or> a = 18 then 1 else 0)"

section \<open>Basic facts: arrays in memory, string search, rounding\<close>

lemma write_array_elem:
  "0 < sz \<Longrightarrow> e < n \<Longrightarrow> write_array sz p n f mem (elem sz p e) = f e"
  by (simp add: write_array_def elem_def)

lemma write_array_frame:
  assumes "0 < sz" and "a \<notin> byte_range p (n * sz)"
  shows "write_array sz p n f mem a = mem a"
proof (cases "p \<le> a \<and> sz dvd (a - p) \<and> (a - p) div sz < n")
  case True
  then have "(a - p) div sz * sz < n * sz"
    using assms(1) by (intro mult_less_mono1) simp_all
  moreover have "(a - p) div sz * sz = a - p"
    using True by simp
  ultimately have "a < p + n * sz"
    using True by linarith
  with True assms(2) show ?thesis
    by (simp add: byte_range_def)
next
  case False
  then show ?thesis
    by (auto simp: write_array_def)
qed

lemma elem_in_byte_range:
  "0 < sz \<Longrightarrow> e < n \<Longrightarrow> elem sz p e \<in> byte_range p (n * sz)"
proof -
  assume "0 < sz" "e < n"
  then have "e * sz < n * sz" by simp
  then show ?thesis by (simp add: byte_range_def elem_def)
qed

lemma string_find_iff:
  "string_find s pat \<noteq> npos \<longleftrightarrow> (\<exists>u v. s = u @ pat @ v)"
proof (induction s)
  case Nil
  then show ?case by (auto simp: npos_def)
next
  case (Cons c s)
  show ?case
  proof (cases "take (length pat) (c # s) = pat")
    case True
    then have "c # s = [] @ pat @ drop (length pat) (c # s)"
      by (metis append_Nil append_take_drop_id)
    then have "\<exists>u v. c # s = u @ pat @ v" by blast
    with True show ?thesis by (simp add: npos_def)
  next
    case False
    have "(\<exists>u v. c # s = u @ pat @ v) \<longleftrightarrow> (\<exists>u v. s = u @ pat @ v)"
    proof
      assume "\<exists>u v. c # s = u @ pat @ v"
      then obtain u v where uv: "c # s = u @ pat @ v" by blast
      show "\<exists>u v. s = u @ pat @ v"
      proof (cases u)
        case Nil
        with uv have "take (length pat) (c # s) = pat" by simp
        with False show ?thesis by simp
      next
        case (Cons x u')
        with uv have "s = u' @ pat @ v" by simp
        then show ?thesis by blast
      qed
    next
      assume "\<exists>u v. s = u @ pat @ v"
      then obtain u v where "s = u @ pat @ v" by blast
      then have "c # s = (c # u) @ pat @ v" by simp
      then show "\<exists>u v. c # s = u @ pat @ v" by blast
    qed
    with False Cons.IH show ?thesis
      by (simp add: npos_def)
  qed
qed

lemma round_up_ge: "0 < a \<Longrightarrow> x \<le> round_up x a"
proof -
  assume a: "0 < a"
  have "x + a - 1 = (x + a - 1) div a * a + (x + a - 1) mod a"
    by simp
  moreover have "(x + a - 1) mod a \<le> a - 1"
    using a by (simp add: less_Suc_eq_le [symmetric] del: less_Suc_eq_le)
  ultimately have "x + a - 1 \<le> (x + a - 1) div a * a + (a - 1)"
    by linarith
  then show ?thesis
    using a by (simp add: round_up_def)
qed

lemma round_up_less: "0 < a \<Longrightarrow> round_up x a < x + a"
proof -
  assume a: "0 < a"
  have "(x + a - 1) div a * a \<le> x + a - 1"
    by simp
  then have "(x + a - 1) div a * a < x + a"
    using a by linarith
  then show ?thesis
    by (simp only: round_up_def)
qed

lemma round_up_dvd: "a dvd round_up x a"
  by (simp add: round_up_def)

lemma example_linear_fields:
  "dim_in example_linear = 2" "dim_out example_linear = 3" "transposed example_linear"
  "has_bias example_linear" "output example_linear = Some 8192"
  "weight example_linear = Some 4096" "bias example_linear = Some 4108"
  by (simp_all add: example_linear_def)

lemma example_head_fields:
  "dim_in example_head = 2" "dim_out example_head = 3" "transposed example_head"
  "has_bias example_head" "output example_head = Some 8192"
  "weight example_head = Some 4096" "bias example_head = Some 4108"
  "tmp_hidden_size example_head = Some 8448" "head_scale example_head = 5"
  by (simp_all add: example_head_def)

section \<open>The function \<^verbatim>\<open>linear\<close>: what it computes\<close>

lemma cublasGemmEx_entry:
  assumes "0 < sz" and "r < m" and "c < n" and "m \<le> ldc"
  shows "cublasGemmEx sz transa transb m n k alpha A lda B ldb beta C ldc mem
           (elem sz C (r + c * ldc))
         = alpha * (\<Sum>l\<leftarrow>[0..<k]. op_entry sz mem transa A lda r l * op_entry sz mem transb B ldb l c)
           + beta * mem (elem sz C (r + c * ldc))"
proof -
  have r: "r < ldc" using assms by simp
  have lt: "r + c * ldc < ldc * n"
  proof -
    have "r + c * ldc < ldc + c * ldc" using r by simp
    also have "\<dots> = ldc * Suc c" by simp
    also have "\<dots> \<le> ldc * n" using assms(3) by (intro mult_le_mono2) simp
    finally show ?thesis .
  qed
  have md: "(r + c * ldc) mod ldc = r" "(r + c * ldc) div ldc = c"
    using r by simp_all
  show ?thesis
    unfolding cublasGemmEx_def
    by (simp only: write_array_elem [OF assms(1) lt] Let_def md assms(2) if_True)
qed

lemma cublasGemmEx_frame:
  assumes "0 < sz" and "a \<notin> byte_range C (ldc * n * sz)"
  shows "cublasGemmEx sz transa transb m n k alpha A lda B ldb beta C ldc mem a = mem a"
  unfolding cublasGemmEx_def by (rule write_array_frame [OF assms])

lemma linear_frame:
  assumes "0 < sz" and "a \<notin> byte_range out (n * d_out * sz)"
  shows "linear sz n d_in d_out inp w out tr inplace mem a = mem a"
proof -
  have "a \<notin> byte_range out (d_out * n * sz)"
    using assms(2) by (simp add: mult.commute)
  then show ?thesis
    unfolding linear_def Let_def
    by (simp add: cublasGemmEx_frame [OF assms(1)])
qed

lemma linear_transposed:
  assumes "0 < sz" and "i < n" and "j < d_out"
  shows "linear sz n d_in d_out inp w out True inplace mem (elem sz out (i * d_out + j))
         = A_times_Wt sz mem d_in d_out inp w i j
           + (if inplace then mem (elem sz out (i * d_out + j)) else 0)"
proof -
  have addr: "i * d_out + j = j + i * d_out" by simp
  have "(\<Sum>l\<leftarrow>[0..<d_in]. op_entry sz mem CUBLAS_OP_T w d_in j l
            * op_entry sz mem CUBLAS_OP_N inp d_in l i)
        = A_times_Wt sz mem d_in d_out inp w i j"
    unfolding A_times_Wt_def op_entry_def row_major_def
    by (simp add: mult.commute add.commute)
  then show ?thesis
    unfolding linear_def Let_def addr
    by (simp add: cublasGemmEx_entry [OF assms(1) assms(3) assms(2) order_refl])
qed

lemma linear_not_transposed:
  assumes "0 < sz" and "i < n" and "j < d_out"
  shows "linear sz n d_in d_out inp w out False inplace mem (elem sz out (i * d_out + j))
         = A_times_W sz mem d_in d_out inp w i j
           + (if inplace then mem (elem sz out (i * d_out + j)) else 0)"
proof -
  have addr: "i * d_out + j = j + i * d_out" by simp
  have "(\<Sum>l\<leftarrow>[0..<d_in]. op_entry sz mem CUBLAS_OP_N w d_out j l
            * op_entry sz mem CUBLAS_OP_N inp d_in l i)
        = A_times_W sz mem d_in d_out inp w i j"
    unfolding A_times_W_def op_entry_def row_major_def
    by (simp add: mult.commute add.commute)
  then show ?thesis
    unfolding linear_def Let_def addr
    by (simp add: cublasGemmEx_entry [OF assms(1) assms(3) assms(2) order_refl])
qed

lemma linear_entry:
  assumes "0 < sz" and "i < n" and "j < d_out"
  shows "linear sz n d_in d_out inp w out tr inplace mem (elem sz out (i * d_out + j))
         = (if tr then A_times_Wt sz mem d_in d_out inp w i j
            else A_times_W sz mem d_in d_out inp w i j)
           + (if inplace then mem (elem sz out (i * d_out + j)) else 0)"
  by (cases tr) (simp_all only: linear_transposed [OF assms] linear_not_transposed [OF assms]
      if_True if_False)

text \<open>
  Claim C1. For all \<open>num_tokens\<close>, \<open>dim_in\<close>, \<open>dim_out\<close>, every input matrix \<open>A\<close>
  (\<open>num_tokens \<times> dim_in\<close>, row-major at \<open>inp\<close>) and weight matrix \<open>W\<close> (at \<open>w\<close>), the
  call of \<^verbatim>\<open>linear\<close> leaves in every entry \<open>(i, j)\<close> of the output matrix
  (\<open>num_tokens \<times> dim_out\<close>, row-major at \<open>out\<close>) the entry of \<open>A \<times> W\<^sup>T\<close> when the
  transposed flag is set (\<open>W\<close> laid out \<open>dim_out \<times> dim_in\<close>) and the entry of \<open>A \<times> W\<close>
  when it is not (\<open>W\<close> laid out \<open>dim_in \<times> dim_out\<close>); with the accumulate flag
  (\<^verbatim>\<open>inplace\<close>) the product is added to what the entry held before the call, without it
  the entry is overwritten. The matrices are those in the memory before the call, and
  nothing outside the output buffer is written.
\<close>

theorem linear_computes:
  assumes "0 < sz" and "i < n" and "j < d_out"
  shows "linear sz n d_in d_out inp w out tr inplace mem (elem sz out (i * d_out + j))
         = (if tr then A_times_Wt sz mem d_in d_out inp w i j
            else A_times_W sz mem d_in d_out inp w i j)
           + (if inplace then mem (elem sz out (i * d_out + j)) else 0)
       \<and> (\<forall>a. a \<notin> byte_range out (n * d_out * sz) \<longrightarrow>
             linear sz n d_in d_out inp w out tr inplace mem a = mem a)"
proof (intro conjI allI impI)
  show "linear sz n d_in d_out inp w out tr inplace mem (elem sz out (i * d_out + j))
         = (if tr then A_times_Wt sz mem d_in d_out inp w i j
            else A_times_W sz mem d_in d_out inp w i j)
           + (if inplace then mem (elem sz out (i * d_out + j)) else 0)"
  proof (cases tr)
    case True
    have "linear sz n d_in d_out inp w out True inplace mem (elem sz out (i * d_out + j))
          = A_times_Wt sz mem d_in d_out inp w i j
            + (if inplace then mem (elem sz out (i * d_out + j)) else 0)"
      by (rule linear_transposed [OF assms])
    with True show ?thesis by simp
  next
    case False
    have "linear sz n d_in d_out inp w out False inplace mem (elem sz out (i * d_out + j))
          = A_times_W sz mem d_in d_out inp w i j
            + (if inplace then mem (elem sz out (i * d_out + j)) else 0)"
      by (rule linear_not_transposed [OF assms])
    with False show ?thesis by simp
  qed
next
  fix a
  assume "a \<notin> byte_range out (n * d_out * sz)"
  then show "linear sz n d_in d_out inp w out tr inplace mem a = mem a"
    by (rule linear_frame [OF assms(1)])
qed

theorem linear_computes_witness:
  "(0::nat) < 2 \<and> (0::nat) < 1 \<and> (1::nat) < 2
   \<and> linear 2 1 2 2 16 100 200 False True example_mem (elem 2 200 (0 * 2 + 1))
       = A_times_W 2 example_mem 2 2 16 100 0 1 + example_mem (elem 2 200 (0 * 2 + 1))
   \<and> A_times_W 2 example_mem 2 2 16 100 0 1 + example_mem (elem 2 200 (0 * 2 + 1)) = 3742
   \<and> 100 \<notin> byte_range 200 (1 * 2 * 2)
   \<and> linear 2 1 2 2 16 100 200 False True example_mem 100 = example_mem 100"
proof -
  have a: "(0::nat) < 2" and b: "(0::nat) < 1" and c: "(1::nat) < 2" by simp_all
  have v: "A_times_W 2 example_mem 2 2 16 100 0 1 + example_mem (elem 2 200 (0 * 2 + 1)) = 3742"
    by code_simp
  have f: "100 \<notin> byte_range 200 (1 * 2 * 2)"
    by (simp add: byte_range_def)
  from a b c v f linear_computes [OF a b c, of 2 16 100 200 False True example_mem]
  show ?thesis
    by simp
qed

section \<open>\<^verbatim>\<open>Linear::prefill\<close> and \<^verbatim>\<open>LMHead::prefill\<close>\<close>

lemma byte_range_disjointD:
  "byte_range p k \<inter> byte_range q l = {} \<Longrightarrow> a \<in> byte_range p k \<Longrightarrow> a \<notin> byte_range q l"
  by blast

lemma batched_add_entry:
  assumes "0 < sz" and "i < n" and "j < d"
  shows "batched_add sz n d a b c mem (elem sz c (i * d + j))
         = mem (elem sz a (i * d + j)) + mem (elem sz b j)"
proof -
  have lt: "i * d + j < n * d"
  proof -
    have "i * d + j < i * d + d" using assms(3) by simp
    also have "\<dots> = Suc i * d" by simp
    also have "\<dots> \<le> n * d" using assms(2) by (intro mult_le_mono1) simp
    finally show ?thesis .
  qed
  have md: "(i * d + j) mod d = j" using assms(3) by simp
  show ?thesis
    unfolding batched_add_def
    by (simp only: write_array_elem [OF assms(1) lt] md)
qed

lemma index_less:
  "i < n \<Longrightarrow> j < d \<Longrightarrow> i * d + j < n * (d::nat)"
proof -
  assume "i < n" "j < d"
  have "i * d + j < i * d + d" using \<open>j < d\<close> by simp
  also have "\<dots> = Suc i * d" by simp
  also have "\<dots> \<le> n * d" using \<open>i < n\<close> by (intro mult_le_mono1) simp
  finally show ?thesis .
qed

lemma prefill_bias_unfold:
  assumes "has_bias this" and "weight this = Some w" and "bias this = Some b"
    and "(if tgt = nullptr then output this else Some tgt) = Some t"
  shows "prefill sz this n inp tgt inplace mem
         = Returned () (batched_add sz n (dim_out this) t b t
             (linear sz n (dim_in this) (dim_out this) inp w t (transposed this) inplace mem))"
  using assms unfolding prefill_def Let_def by simp

lemma prefill_nobias_unfold:
  assumes "\<not> has_bias this" and "weight this = Some w"
    and "(if tgt = nullptr then output this else Some tgt) = Some t"
  shows "prefill sz this n inp tgt inplace mem
         = Returned () (linear sz n (dim_in this) (dim_out this) inp w t (transposed this) inplace mem)"
  using assms unfolding prefill_def Let_def by simp

lemma elementwise_scale_entry:
  "0 < sz \<Longrightarrow> e < n * d \<Longrightarrow>
     elementwise_scale sz n d a v b mem (elem sz b e) = v * mem (elem sz a e)"
  unfolding elementwise_scale_def by (simp only: write_array_elem)

lemma elementwise_scale_frame:
  "0 < sz \<Longrightarrow> x \<notin> byte_range b (n * d * sz) \<Longrightarrow>
     elementwise_scale sz n d a v b mem x = mem x"
  unfolding elementwise_scale_def by (rule write_array_frame)

lemma prefill_entry:
  assumes "weight this = Some w"
    and "(if tgt = nullptr then output this else Some tgt) = Some t"
    and "has_bias this \<longrightarrow> bias this = Some b
           \<and> byte_range b (dim_out this * sz) \<inter> byte_range t (n * dim_out this * sz) = {}"
    and "0 < sz" and "i < n" and "j < dim_out this"
  shows "\<exists>mem'. prefill sz this n inp tgt inplace mem = Returned () mem'
           \<and> mem' (elem sz t (i * dim_out this + j))
             = (if transposed this then A_times_Wt sz mem (dim_in this) (dim_out this) inp w i j
                else A_times_W sz mem (dim_in this) (dim_out this) inp w i j)
               + (if inplace then mem (elem sz t (i * dim_out this + j)) else 0)
               + (if has_bias this then mem (elem sz b j) else 0)"
proof (cases "has_bias this")
  case True
  with assms(3) have b: "bias this = Some b"
    and disj: "byte_range b (dim_out this * sz) \<inter> byte_range t (n * dim_out this * sz) = {}"
    by simp_all
  have "elem sz b j \<in> byte_range b (dim_out this * sz)"
    by (rule elem_in_byte_range [OF assms(4) assms(6)])
  then have "elem sz b j \<notin> byte_range t (n * dim_out this * sz)"
    by (rule byte_range_disjointD [OF disj])
  then have bias_kept:
    "linear sz n (dim_in this) (dim_out this) inp w t (transposed this) inplace mem (elem sz b j)
     = mem (elem sz b j)"
    by (rule linear_frame [OF assms(4)])
  have "batched_add sz n (dim_out this) t b t
             (linear sz n (dim_in this) (dim_out this) inp w t (transposed this) inplace mem)
             (elem sz t (i * dim_out this + j))
         = (if transposed this then A_times_Wt sz mem (dim_in this) (dim_out this) inp w i j
            else A_times_W sz mem (dim_in this) (dim_out this) inp w i j)
           + (if inplace then mem (elem sz t (i * dim_out this + j)) else 0)
           + mem (elem sz b j)"
    by (simp only: batched_add_entry [OF assms(4-6)] bias_kept linear_entry [OF assms(4-6)])
  with True show ?thesis
    by (simp add: prefill_bias_unfold [OF True assms(1) b assms(2)])
next
  case False
  then show ?thesis
    by (simp add: prefill_nobias_unfold [OF False assms(1) assms(2)]
        linear_entry [OF assms(4-6)])
qed

lemma scaled_rows:
  fixes mem :: "('a::comm_semiring_1) mem"
  assumes "0 < sz" and "i < n" and "j < d_out"
    and tw: "byte_range tmp (n * d_in * sz) \<inter> byte_range w (d_in * d_out * sz) = {}"
  shows "(if tr then A_times_Wt sz (elementwise_scale sz n d_in inp s tmp mem) d_in d_out tmp w i j
          else A_times_W sz (elementwise_scale sz n d_in inp s tmp mem) d_in d_out tmp w i j)
         = (\<Sum>k\<leftarrow>[0..<d_in]. (s * row_major sz mem inp d_in i k)
              * (if tr then row_major sz mem w d_in j k else row_major sz mem w d_out k j))"
proof -
  define mem1 where "mem1 = elementwise_scale sz n d_in inp s tmp mem"
  have a: "row_major sz mem1 tmp d_in i k = s * row_major sz mem inp d_in i k" if "k < d_in" for k
    unfolding row_major_def mem1_def
    by (rule elementwise_scale_entry [OF assms(1) index_less [OF assms(2) that]])
  have keep: "mem1 (elem sz w e) = mem (elem sz w e)" if "e < d_in * d_out" for e
  proof -
    have "elem sz w e \<in> byte_range w (d_in * d_out * sz)"
      by (rule elem_in_byte_range [OF assms(1) that])
    then have "elem sz w e \<notin> byte_range tmp (n * d_in * sz)"
      using tw by blast
    then show ?thesis
      unfolding mem1_def by (rule elementwise_scale_frame [OF assms(1)])
  qed
  have wt: "row_major sz mem1 w d_in j k = row_major sz mem w d_in j k" if "k < d_in" for k
  proof -
    have "j * d_in + k < d_out * d_in" by (rule index_less [OF assms(3) that])
    then have "j * d_in + k < d_in * d_out" by (simp add: mult.commute)
    then show ?thesis unfolding row_major_def by (rule keep)
  qed
  have wn: "row_major sz mem1 w d_out k j = row_major sz mem w d_out k j" if "k < d_in" for k
    unfolding row_major_def by (rule keep [OF index_less [OF that assms(3)]])
  show ?thesis
  proof (cases tr)
    case True
    have "A_times_Wt sz mem1 d_in d_out tmp w i j
          = (\<Sum>k\<leftarrow>[0..<d_in]. (s * row_major sz mem inp d_in i k) * row_major sz mem w d_in j k)"
      unfolding A_times_Wt_def
      by (intro arg_cong [where f = sum_list] map_cong) (simp_all add: a wt)
    with True show ?thesis by (simp add: mem1_def)
  next
    case False
    have "A_times_W sz mem1 d_in d_out tmp w i j
          = (\<Sum>k\<leftarrow>[0..<d_in]. (s * row_major sz mem inp d_in i k) * row_major sz mem w d_out k j)"
      unfolding A_times_W_def
      by (intro arg_cong [where f = sum_list] map_cong) (simp_all add: a wn)
    with False show ?thesis by (simp add: mem1_def)
  qed
qed

text \<open>
  Claim C3, as stated, fails for a projection whose weight layout is not transposed.
  Take \<open>dim_in = dim_out = 2\<close>, one token with the input row \<open>(1, 0)\<close>, the weight matrix
  with rows \<open>(0, 1)\<close> and \<open>(0, 0)\<close>, and the bias \<open>(0, 0)\<close>: \<^verbatim>\<open>prefill\<close> without
  accumulation leaves 1 in entry \<open>(0, 1)\<close> of the output, which is
  \<open>(A \<times> W)[0][1] + bias[1]\<close>, while \<open>(A \<times> W\<^sup>T)[0][1] + bias[1]\<close> is 0.
\<close>

theorem prefill_not_transposed_counterexample:
  "has_bias example_linear_N \<and> \<not> transposed example_linear_N
   \<and> prefill 2 example_linear_N 1 32 nullptr False example_mem_N
       = Returned () (batched_add 2 1 2 64 48 64
           (linear 2 1 2 2 32 16 64 False False example_mem_N))
   \<and> batched_add 2 1 2 64 48 64 (linear 2 1 2 2 32 16 64 False False example_mem_N)
         (elem 2 64 (0 * 2 + 1)) = 1
   \<and> A_times_W 2 example_mem_N 2 2 32 16 0 1 + example_mem_N (elem 2 48 1) = 1
   \<and> A_times_Wt 2 example_mem_N 2 2 32 16 0 1 + example_mem_N (elem 2 48 1) = 0
   \<and> batched_add 2 1 2 64 48 64 (linear 2 1 2 2 32 16 64 False False example_mem_N)
         (elem 2 64 (0 * 2 + 1))
       \<noteq> A_times_Wt 2 example_mem_N 2 2 32 16 0 1 + example_mem_N (elem 2 48 1)"
proof -
  have p: "prefill 2 example_linear_N 1 32 nullptr False example_mem_N
       = Returned () (batched_add 2 1 2 64 48 64
           (linear 2 1 2 2 32 16 64 False False example_mem_N))"
    by (simp add: prefill_def example_linear_N_def nullptr_def)
  have a: "batched_add 2 1 2 64 48 64 (linear 2 1 2 2 32 16 64 False False example_mem_N)
         (elem 2 64 (0 * 2 + 1)) = 1"
    by code_simp
  have b: "A_times_W 2 example_mem_N 2 2 32 16 0 1 + example_mem_N (elem 2 48 1) = 1"
    by code_simp
  have c: "A_times_Wt 2 example_mem_N 2 2 32 16 0 1 + example_mem_N (elem 2 48 1) = 0"
    by code_simp
  show ?thesis
    using p a b c by (simp add: example_linear_N_def)
qed

text \<open>
  Claim C3, amended. For every projection with \<^verbatim>\<open>has_bias\<close> set (whose weight and bias
  members are assigned and whose bias buffer lies apart from the target buffer), a call
  of \<^verbatim>\<open>prefill\<close> without accumulation runs the matrix multiply and then, as a separate
  pass over the result, the broadcast addition of the bias; entry \<open>(i, j)\<close> of the output
  is \<open>(A \<times> W\<^sup>T)[i][j] + bias[j]\<close> when the projection has the transposed weight layout
  (\<open>W\<close> laid out \<open>dim_out \<times> dim_in\<close>), and \<open>(A \<times> W)[i][j] + bias[j]\<close> when it has the
  other one (\<open>W\<close> laid out \<open>dim_in \<times> dim_out\<close>).
\<close>

theorem prefill_bias_after_multiply:
  assumes "has_bias this" and "weight this = Some w" and "bias this = Some b"
    and "(if tgt = nullptr then output this else Some tgt) = Some t"
    and "0 < sz" and "i < n" and "j < dim_out this"
    and "byte_range b (dim_out this * sz) \<inter> byte_range t (n * dim_out this * sz) = {}"
  shows "prefill sz this n inp tgt False mem
         = Returned () (batched_add sz n (dim_out this) t b t
             (linear sz n (dim_in this) (dim_out this) inp w t (transposed this) False mem))
       \<and> batched_add sz n (dim_out this) t b t
             (linear sz n (dim_in this) (dim_out this) inp w t (transposed this) False mem)
             (elem sz t (i * dim_out this + j))
         = (if transposed this then A_times_Wt sz mem (dim_in this) (dim_out this) inp w i j
            else A_times_W sz mem (dim_in this) (dim_out this) inp w i j)
           + mem (elem sz b j)"
proof
  show "prefill sz this n inp tgt False mem
         = Returned () (batched_add sz n (dim_out this) t b t
             (linear sz n (dim_in this) (dim_out this) inp w t (transposed this) False mem))"
    by (rule prefill_bias_unfold [OF assms(1-4)])
  have "elem sz b j \<in> byte_range b (dim_out this * sz)"
    by (rule elem_in_byte_range [OF assms(5) assms(7)])
  then have "elem sz b j \<notin> byte_range t (n * dim_out this * sz)"
    by (rule byte_range_disjointD [OF assms(8)])
  then have bias_kept:
    "linear sz n (dim_in this) (dim_out this) inp w t (transposed this) False mem (elem sz b j)
     = mem (elem sz b j)"
    by (rule linear_frame [OF assms(5)])
  show "batched_add sz n (dim_out this) t b t
             (linear sz n (dim_in this) (dim_out this) inp w t (transposed this) False mem)
             (elem sz t (i * dim_out this + j))
         = (if transposed this then A_times_Wt sz mem (dim_in this) (dim_out this) inp w i j
            else A_times_W sz mem (dim_in this) (dim_out this) inp w i j)
           + mem (elem sz b j)"
    by (simp only: batched_add_entry [OF assms(5-7)] bias_kept
        linear_entry [OF assms(5-7)] if_False add_0_right)
qed

theorem prefill_bias_after_multiply_witness:
  "has_bias example_linear \<and> weight example_linear = Some 4096
   \<and> bias example_linear = Some 4108
   \<and> (if nullptr = nullptr then output example_linear else Some nullptr) = Some 8192
   \<and> (0::nat) < 2 \<and> (0::nat) < 1 \<and> 2 < dim_out example_linear
   \<and> byte_range 4108 (dim_out example_linear * 2)
        \<inter> byte_range 8192 (1 * dim_out example_linear * 2) = {}
   \<and> prefill 2 example_linear 1 16 nullptr False example_mem
       = Returned () (batched_add 2 1 3 8192 4108 8192
           (linear 2 1 2 3 16 4096 8192 True False example_mem))
   \<and> batched_add 2 1 3 8192 4108 8192
         (linear 2 1 2 3 16 4096 8192 True False example_mem) (elem 2 8192 (0 * 3 + 2))
       = A_times_Wt 2 example_mem 2 3 16 4096 0 2 + example_mem (elem 2 4108 2)
   \<and> A_times_Wt 2 example_mem 2 3 16 4096 0 2 + example_mem (elem 2 4108 2) = 143684"
proof -
  have h: "has_bias example_linear" "weight example_linear = Some 4096"
    "bias example_linear = Some 4108"
    "(if nullptr = nullptr then output example_linear else Some nullptr) = Some 8192"
    "(0::nat) < 2" "(0::nat) < 1" "2 < dim_out example_linear"
    "byte_range 4108 (dim_out example_linear * 2)
        \<inter> byte_range 8192 (1 * dim_out example_linear * 2) = {}"
    by (simp_all add: example_linear_fields byte_range_def)
  have v: "A_times_Wt 2 example_mem 2 3 16 4096 0 2 + example_mem (elem 2 4108 2) = 143684"
    by code_simp
  show ?thesis
    using h v prefill_bias_after_multiply [OF h, of 16 example_mem]
    by (simp add: example_linear_fields)
qed

text \<open>
  Claim C5. For every \<open>num_tokens\<close> and every input activation, \<^verbatim>\<open>LMHead::prefill\<close>
  is \<^verbatim>\<open>Linear::prefill\<close> run on the temporary buffer, in the memory that
  \<^verbatim>\<open>elementwise_scale\<close> leaves; in that memory every element of the temporary buffer
  (\<open>num_tokens \<times> dim_in\<close> elements) is \<open>head_scale\<close> times the element of the input, and
  the input buffer is as before; and the result of the call is the projection of the
  scaled input: entry \<open>(i, j)\<close> of the output is the sum over \<open>k\<close> of
  \<open>(head_scale * A[i][k]) * W[j][k]\<close> (or \<open>W[k][j]\<close> in the layout that is not transposed),
  plus the old entry when accumulating, plus \<open>bias[j]\<close> when the projection has a bias.
  The temporary buffer is private: it lies apart from the input, weight, bias and
  target buffers.
\<close>

theorem LMHead_prefill_scales_then_projects:
  fixes this :: "('a::comm_semiring_1) LMHead"
  assumes "tmp_hidden_size this = Some tmp" and "weight this = Some w"
    and "(if tgt = nullptr then output this else Some tgt) = Some t"
    and "has_bias this \<longrightarrow> bias this = Some b
           \<and> byte_range b (dim_out this * sz) \<inter> byte_range t (n * dim_out this * sz) = {}
           \<and> byte_range tmp (n * dim_in this * sz) \<inter> byte_range b (dim_out this * sz) = {}"
    and "0 < sz" and "i < n" and "j < dim_out this"
    and "byte_range tmp (n * dim_in this * sz) \<inter> byte_range inp (n * dim_in this * sz) = {}"
    and "byte_range tmp (n * dim_in this * sz)
           \<inter> byte_range w (dim_in this * dim_out this * sz) = {}"
    and "byte_range tmp (n * dim_in this * sz) \<inter> byte_range t (n * dim_out this * sz) = {}"
  shows "LMHead_prefill sz this n inp tgt inplace mem = prefill sz this n tmp tgt inplace
           (elementwise_scale sz n (dim_in this) inp (head_scale this) tmp mem)
       \<and> (\<forall>e < n * dim_in this.
             elementwise_scale sz n (dim_in this) inp (head_scale this) tmp mem (elem sz tmp e)
                = head_scale this * mem (elem sz inp e)
             \<and> elementwise_scale sz n (dim_in this) inp (head_scale this) tmp mem (elem sz inp e)
                = mem (elem sz inp e))
       \<and> (\<exists>mem'. LMHead_prefill sz this n inp tgt inplace mem = Returned () mem'
             \<and> mem' (elem sz t (i * dim_out this + j))
               = (\<Sum>k\<leftarrow>[0..<dim_in this].
                    (head_scale this * row_major sz mem inp (dim_in this) i k)
                    * (if transposed this then row_major sz mem w (dim_in this) j k
                       else row_major sz mem w (dim_out this) k j))
                 + (if inplace then mem (elem sz t (i * dim_out this + j)) else 0)
                 + (if has_bias this then mem (elem sz b j) else 0))"
proof -
  define mem1 where "mem1 = elementwise_scale sz n (dim_in this) inp (head_scale this) tmp mem"
  have goal: "LMHead_prefill sz this n inp tgt inplace mem = prefill sz this n tmp tgt inplace mem1
       \<and> (\<forall>e < n * dim_in this.
             mem1 (elem sz tmp e) = head_scale this * mem (elem sz inp e)
             \<and> mem1 (elem sz inp e) = mem (elem sz inp e))
       \<and> (\<exists>mem'. LMHead_prefill sz this n inp tgt inplace mem = Returned () mem'
             \<and> mem' (elem sz t (i * dim_out this + j))
               = (\<Sum>k\<leftarrow>[0..<dim_in this].
                    (head_scale this * row_major sz mem inp (dim_in this) i k)
                    * (if transposed this then row_major sz mem w (dim_in this) j k
                       else row_major sz mem w (dim_out this) k j))
                 + (if inplace then mem (elem sz t (i * dim_out this + j)) else 0)
                 + (if has_bias this then mem (elem sz b j) else 0))"
  proof (intro conjI allI impI)
  show unfold: "LMHead_prefill sz this n inp tgt inplace mem = prefill sz this n tmp tgt inplace mem1"
    unfolding LMHead_prefill_def mem1_def by (simp add: assms(1))
  show "mem1 (elem sz tmp e) = head_scale this * mem (elem sz inp e)" if "e < n * dim_in this" for e
    unfolding mem1_def by (rule elementwise_scale_entry [OF assms(5) that])
  show "mem1 (elem sz inp e) = mem (elem sz inp e)" if "e < n * dim_in this" for e
  proof -
    have "elem sz inp e \<in> byte_range inp (n * dim_in this * sz)"
      by (rule elem_in_byte_range [OF assms(5) that])
    then have "elem sz inp e \<notin> byte_range tmp (n * dim_in this * sz)"
      using assms(8) by blast
    then show ?thesis
      unfolding mem1_def by (rule elementwise_scale_frame [OF assms(5)])
  qed
  have hb: "has_bias this \<longrightarrow> bias this = Some b
           \<and> byte_range b (dim_out this * sz) \<inter> byte_range t (n * dim_out this * sz) = {}"
    using assms(4) by simp
  obtain mem' where ret: "prefill sz this n tmp tgt inplace mem1 = Returned () mem'"
    and val: "mem' (elem sz t (i * dim_out this + j))
      = (if transposed this then A_times_Wt sz mem1 (dim_in this) (dim_out this) tmp w i j
         else A_times_W sz mem1 (dim_in this) (dim_out this) tmp w i j)
        + (if inplace then mem1 (elem sz t (i * dim_out this + j)) else 0)
        + (if has_bias this then mem1 (elem sz b j) else 0)"
    using prefill_entry [OF assms(2) assms(3) hb assms(5-7), of tmp inplace mem1] by blast
  have out_kept: "mem1 (elem sz t (i * dim_out this + j)) = mem (elem sz t (i * dim_out this + j))"
  proof -
    have "elem sz t (i * dim_out this + j) \<in> byte_range t (n * dim_out this * sz)"
      by (rule elem_in_byte_range [OF assms(5) index_less [OF assms(6,7)]])
    then have "elem sz t (i * dim_out this + j) \<notin> byte_range tmp (n * dim_in this * sz)"
      using assms(10) by blast
    then show ?thesis
      unfolding mem1_def by (rule elementwise_scale_frame [OF assms(5)])
  qed
  have bias_kept: "mem1 (elem sz b j) = mem (elem sz b j)" if "has_bias this"
  proof -
    have "elem sz b j \<in> byte_range b (dim_out this * sz)"
      by (rule elem_in_byte_range [OF assms(5) assms(7)])
    then have "elem sz b j \<notin> byte_range tmp (n * dim_in this * sz)"
      using assms(4) that by blast
    then show ?thesis
      unfolding mem1_def by (rule elementwise_scale_frame [OF assms(5)])
  qed
  have rows: "(if transposed this then A_times_Wt sz mem1 (dim_in this) (dim_out this) tmp w i j
         else A_times_W sz mem1 (dim_in this) (dim_out this) tmp w i j)
       = (\<Sum>k\<leftarrow>[0..<dim_in this].
                    (head_scale this * row_major sz mem inp (dim_in this) i k)
                    * (if transposed this then row_major sz mem w (dim_in this) j k
                       else row_major sz mem w (dim_out this) k j))"
    unfolding mem1_def by (rule scaled_rows [OF assms(5-7) assms(9)])
  have "mem' (elem sz t (i * dim_out this + j))
               = (\<Sum>k\<leftarrow>[0..<dim_in this].
                    (head_scale this * row_major sz mem inp (dim_in this) i k)
                    * (if transposed this then row_major sz mem w (dim_in this) j k
                       else row_major sz mem w (dim_out this) k j))
                 + (if inplace then mem (elem sz t (i * dim_out this + j)) else 0)
                 + (if has_bias this then mem (elem sz b j) else 0)"
    unfolding val rows out_kept using bias_kept by simp
  with ret unfold
  show "\<exists>mem'. LMHead_prefill sz this n inp tgt inplace mem = Returned () mem'
             \<and> mem' (elem sz t (i * dim_out this + j))
               = (\<Sum>k\<leftarrow>[0..<dim_in this].
                    (head_scale this * row_major sz mem inp (dim_in this) i k)
                    * (if transposed this then row_major sz mem w (dim_in this) j k
                       else row_major sz mem w (dim_out this) k j))
                 + (if inplace then mem (elem sz t (i * dim_out this + j)) else 0)
                 + (if has_bias this then mem (elem sz b j) else 0)"
    by simp
qed
  then show ?thesis
    unfolding mem1_def .
qed

theorem LMHead_prefill_scales_then_projects_witness:
  "tmp_hidden_size example_head = Some 8448 \<and> weight example_head = Some 4096
   \<and> (if nullptr = nullptr then output example_head else Some nullptr) = Some 8192
   \<and> has_bias example_head \<and> bias example_head = Some 4108
   \<and> byte_range 4108 (dim_out example_head * 2)
        \<inter> byte_range 8192 (1 * dim_out example_head * 2) = {}
   \<and> byte_range 8448 (1 * dim_in example_head * 2)
        \<inter> byte_range 4108 (dim_out example_head * 2) = {}
   \<and> (0::nat) < 2 \<and> (0::nat) < 1 \<and> 2 < dim_out example_head
   \<and> byte_range 8448 (1 * dim_in example_head * 2)
        \<inter> byte_range 16 (1 * dim_in example_head * 2) = {}
   \<and> byte_range 8448 (1 * dim_in example_head * 2)
        \<inter> byte_range 4096 (dim_in example_head * dim_out example_head * 2) = {}
   \<and> byte_range 8448 (1 * dim_in example_head * 2)
        \<inter> byte_range 8192 (1 * dim_out example_head * 2) = {}
   \<and> LMHead_prefill 2 example_head 1 16 nullptr True example_mem
       = prefill 2 example_head 1 8448 nullptr True
           (elementwise_scale 2 1 (dim_in example_head) 16 (head_scale example_head) 8448
              example_mem)
   \<and> elementwise_scale 2 1 (dim_in example_head) 16 (head_scale example_head) 8448 example_mem
         (elem 2 8448 1)
       = head_scale example_head * example_mem (elem 2 16 1)
   \<and> elementwise_scale 2 1 (dim_in example_head) 16 (head_scale example_head) 8448 example_mem
         (elem 2 16 1)
       = example_mem (elem 2 16 1)
   \<and> (\<exists>mem'. LMHead_prefill 2 example_head 1 16 nullptr True example_mem = Returned () mem'
         \<and> mem' (elem 2 8192 (0 * dim_out example_head + 2))
           = (\<Sum>k\<leftarrow>[0..<dim_in example_head].
                (head_scale example_head * row_major 2 example_mem 16 (dim_in example_head) 0 k)
                * (if transposed example_head
                   then row_major 2 example_mem 4096 (dim_in example_head) 2 k
                   else row_major 2 example_mem 4096 (dim_out example_head) k 2))
             + (if True then example_mem (elem 2 8192 (0 * dim_out example_head + 2)) else 0)
             + (if has_bias example_head then example_mem (elem 2 4108 2) else 0))
   \<and> (\<Sum>k\<leftarrow>[0..<2]. (5 * row_major 2 example_mem 16 2 0 k)
          * row_major 2 example_mem 4096 2 2 k)
       + example_mem (elem 2 8192 (0 * 3 + 2)) + example_mem (elem 2 4108 2) = 710168"
proof -
  have h1: "tmp_hidden_size example_head = Some 8448" "weight example_head = Some 4096"
    "(if nullptr = nullptr then output example_head else Some nullptr) = Some 8192"
    by (simp_all add: example_head_fields)
  have hb: "has_bias example_head" "bias example_head = Some 4108"
    "byte_range 4108 (dim_out example_head * 2)
        \<inter> byte_range 8192 (1 * dim_out example_head * 2) = {}"
    "byte_range 8448 (1 * dim_in example_head * 2)
        \<inter> byte_range 4108 (dim_out example_head * 2) = {}"
    by (simp_all add: example_head_fields byte_range_def)
  have h4: "has_bias example_head \<longrightarrow> bias example_head = Some 4108
      \<and> byte_range 4108 (dim_out example_head * 2)
           \<inter> byte_range 8192 (1 * dim_out example_head * 2) = {}
      \<and> byte_range 8448 (1 * dim_in example_head * 2)
           \<inter> byte_range 4108 (dim_out example_head * 2) = {}"
    using hb by (intro impI conjI)
  have h5: "(0::nat) < 2" "(0::nat) < 1" "2 < dim_out example_head"
    "byte_range 8448 (1 * dim_in example_head * 2)
        \<inter> byte_range 16 (1 * dim_in example_head * 2) = {}"
    "byte_range 8448 (1 * dim_in example_head * 2)
        \<inter> byte_range 4096 (dim_in example_head * dim_out example_head * 2) = {}"
    "byte_range 8448 (1 * dim_in example_head * 2)
        \<inter> byte_range 8192 (1 * dim_out example_head * 2) = {}"
    by (simp_all add: example_head_fields byte_range_def)
  have v: "(\<Sum>k\<leftarrow>[0..<2]. (5 * row_major 2 example_mem 16 2 0 k)
          * row_major 2 example_mem 4096 2 2 k)
       + example_mem (elem 2 8192 (0 * 3 + 2)) + example_mem (elem 2 4108 2) = 710168"
    by code_simp
  note t = LMHead_prefill_scales_then_projects [OF h1 h4 h5, of True example_mem]
  have e: "(1::nat) < 1 * dim_in example_head"
    by (simp add: example_head_fields)
  from t e have b:
    "elementwise_scale 2 1 (dim_in example_head) 16 (head_scale example_head) 8448 example_mem
         (elem 2 8448 1)
       = head_scale example_head * example_mem (elem 2 16 1)
     \<and> elementwise_scale 2 1 (dim_in example_head) 16 (head_scale example_head) 8448 example_mem
         (elem 2 16 1)
       = example_mem (elem 2 16 1)"
    by blast
  from h1 hb h5 t b v show ?thesis
    by blast
qed

section \<open>\<^verbatim>\<open>Linear::load_to_storage\<close> and \<^verbatim>\<open>Linear::init_weight_ptr\<close>\<close>

lemma string_find_sublist: "string_find name pat \<noteq> npos \<longleftrightarrow> sublist pat name"
  unfolding string_find_iff sublist_def ..

lemma size_t_mul_exact:
  assumes "a \<le> INT_MAX" and "sz \<le> 2 ^ 32"
  shows "size_t_mul a sz = a * sz"
proof -
  have "a * sz \<le> INT_MAX * 2 ^ 32"
    using assms by (rule mult_le_mono)
  also have "\<dots> < 2 ^ 64"
    by (simp add: INT_MAX_def)
  finally show ?thesis
    by (simp add: size_t_mul_def)
qed

lemma int_mul_Some: "a * b \<le> INT_MAX \<Longrightarrow> int_mul a b = Some (a * b)"
  by (simp add: int_mul_def)

lemma cudaMemcpy_elems:
  "0 < sz \<Longrightarrow> cudaMemcpy sz dst host (n * sz) mem = write_array sz dst n host mem"
  by (simp add: cudaMemcpy_def)

lemma load_to_storage_weight:
  assumes "sublist ''weight'' name" and "weight this = Some w"
    and "dim_in this * dim_out this \<le> INT_MAX" and "0 < sz" and "sz \<le> 2 ^ 32"
  shows "load_to_storage sz this name host mem
         = Returned () (write_array sz w (dim_in this * dim_out this) host mem)"
proof -
  have "string_find name ''weight'' \<noteq> npos"
    using assms(1) by (simp only: string_find_sublist)
  then show ?thesis
    unfolding load_to_storage_def
    by (simp add: assms(2) int_mul_Some [OF assms(3)] size_t_mul_exact [OF assms(3) assms(5)]
        cudaMemcpy_elems [OF assms(4)])
qed

lemma load_to_storage_bias:
  assumes "\<not> sublist ''weight'' name" and "sublist ''bias'' name" and "bias this = Some b"
    and "dim_out this \<le> INT_MAX" and "0 < sz" and "sz \<le> 2 ^ 32"
  shows "load_to_storage sz this name host mem
         = Returned () (write_array sz b (dim_out this) host mem)"
proof -
  have "\<not> string_find name ''weight'' \<noteq> npos" "string_find name ''bias'' \<noteq> npos"
    using assms(1,2) by (simp_all only: string_find_sublist not_False_eq_True)
  then show ?thesis
    unfolding load_to_storage_def
    by (simp add: assms(3) size_t_mul_exact [OF assms(4) assms(6)]
        cudaMemcpy_elems [OF assms(5)])
qed

lemma load_to_storage_unsupported:
  assumes "\<not> sublist ''weight'' name" and "\<not> sublist ''bias'' name"
  shows "load_to_storage sz this name host mem
         = Thrown (invalid_argument (''Unsupported name '' @ name)) mem"
proof -
  have "\<not> string_find name ''weight'' \<noteq> npos" "\<not> string_find name ''bias'' \<noteq> npos"
    using assms by (simp_all only: string_find_sublist not_False_eq_True)
  then show ?thesis
    unfolding load_to_storage_def by simp
qed

text \<open>
  Claim C2. For every name: if it contains \<^verbatim>\<open>"weight"\<close>, the host buffer is copied into
  the weight storage (\<open>dim_in * dim_out\<close> elements, by \<open>write_array_elem\<close> and
  \<open>write_array_frame\<close>); else if it contains \<^verbatim>\<open>"bias"\<close>, it is copied into the bias
  storage (\<open>dim_out\<close> elements); and for a name that contains neither the call throws
  \<^verbatim>\<open>std::invalid_argument("Unsupported name " + name)\<close> at once, with the device memory
  as it was. In the two copying branches the pointer member that is read has been
  assigned and the \<^verbatim>\<open>int\<close> product \<open>dim_in * dim_out\<close> does not overflow.
\<close>

theorem load_to_storage_by_name:
  assumes "0 < sz" and "sz \<le> 2 ^ 32"
  shows "(sublist ''weight'' name \<longrightarrow> weight this = Some w
            \<longrightarrow> dim_in this * dim_out this \<le> INT_MAX
            \<longrightarrow> load_to_storage sz this name host mem
                = Returned () (write_array sz w (dim_in this * dim_out this) host mem))
       \<and> (\<not> sublist ''weight'' name \<and> sublist ''bias'' name \<longrightarrow> bias this = Some b
            \<longrightarrow> dim_out this \<le> INT_MAX
            \<longrightarrow> load_to_storage sz this name host mem
                = Returned () (write_array sz b (dim_out this) host mem))
       \<and> (\<not> sublist ''weight'' name \<and> \<not> sublist ''bias'' name
            \<longrightarrow> load_to_storage sz this name host mem
                = Thrown (invalid_argument (''Unsupported name '' @ name)) mem)"
proof (intro conjI impI)
  assume "sublist ''weight'' name" and "weight this = Some w"
    and "dim_in this * dim_out this \<le> INT_MAX"
  then show "load_to_storage sz this name host mem
      = Returned () (write_array sz w (dim_in this * dim_out this) host mem)"
    using assms by (rule load_to_storage_weight)
next
  assume "\<not> sublist ''weight'' name \<and> sublist ''bias'' name" and "bias this = Some b"
    and "dim_out this \<le> INT_MAX"
  then show "load_to_storage sz this name host mem
      = Returned () (write_array sz b (dim_out this) host mem)"
    using assms by (intro load_to_storage_bias) simp_all
next
  assume "\<not> sublist ''weight'' name \<and> \<not> sublist ''bias'' name"
  then show "load_to_storage sz this name host mem
      = Thrown (invalid_argument (''Unsupported name '' @ name)) mem"
    by (intro load_to_storage_unsupported) simp_all
qed

theorem load_to_storage_by_name_witness:
  "(0::nat) < 2 \<and> (2::nat) \<le> 2 ^ 32
   \<and> sublist ''weight'' ''lm_head.weight'' \<and> weight example_linear = Some 4096
   \<and> dim_in example_linear * dim_out example_linear \<le> INT_MAX
   \<and> load_to_storage 2 example_linear ''lm_head.weight'' example_host example_mem
       = Returned () (write_array 2 4096 (dim_in example_linear * dim_out example_linear)
                        example_host example_mem)
   \<and> \<not> sublist ''weight'' ''lm_head.bias'' \<and> sublist ''bias'' ''lm_head.bias''
   \<and> bias example_linear = Some 4108 \<and> dim_out example_linear \<le> INT_MAX
   \<and> load_to_storage 2 example_linear ''lm_head.bias'' example_host example_mem
       = Returned () (write_array 2 4108 (dim_out example_linear) example_host example_mem)
   \<and> \<not> sublist ''weight'' ''lm_head.scale'' \<and> \<not> sublist ''bias'' ''lm_head.scale''
   \<and> load_to_storage 2 example_linear ''lm_head.scale'' example_host example_mem
       = Thrown (invalid_argument ''Unsupported name lm_head.scale'') example_mem"
proof -
  have h: "(0::nat) < 2" "(2::nat) \<le> 2 ^ 32"
    by simp_all
  have f: "weight example_linear = Some 4096" "bias example_linear = Some 4108"
    "dim_in example_linear * dim_out example_linear \<le> INT_MAX"
    "dim_out example_linear \<le> INT_MAX"
    by (simp_all add: example_linear_fields INT_MAX_def)
  have s: "sublist ''weight'' ''lm_head.weight''" "\<not> sublist ''weight'' ''lm_head.bias''"
    "sublist ''bias'' ''lm_head.bias''" "\<not> sublist ''weight'' ''lm_head.scale''"
    "\<not> sublist ''bias'' ''lm_head.scale''"
    by code_simp+
  note t = load_to_storage_by_name [OF h, where this = example_linear and w = 4096
      and b = 4108 and host = example_host and mem = example_mem]
  have e: "''Unsupported name '' @ ''lm_head.scale'' = ''Unsupported name lm_head.scale''"
    by simp
  from h f s t [of "''lm_head.weight''"] t [of "''lm_head.bias''"] t [of "''lm_head.scale''"]
  show ?thesis
    unfolding e by blast
qed

text \<open>
  Claim C9. For every name that contains both \<^verbatim>\<open>"weight"\<close> and \<^verbatim>\<open>"bias"\<close> (such as
  \<^verbatim>\<open>"bias_weight"\<close>), the copy goes to the weight storage: its \<open>dim_in * dim_out\<close>
  elements become those of the host buffer, and the bias storage (which lies apart from
  the weight storage) is left as it was. The test for \<^verbatim>\<open>"weight"\<close> comes first.
\<close>

theorem load_to_storage_weight_precedes_bias:
  assumes "sublist ''weight'' name" and "sublist ''bias'' name"
    and "weight this = Some w" and "bias this = Some b"
    and "dim_in this * dim_out this \<le> INT_MAX" and "0 < sz" and "sz \<le> 2 ^ 32"
    and "byte_range w (dim_in this * dim_out this * sz) \<inter> byte_range b (dim_out this * sz) = {}"
  shows "load_to_storage sz this name host mem
           = Returned () (write_array sz w (dim_in this * dim_out this) host mem)
         \<and> (\<forall>e < dim_in this * dim_out this.
               write_array sz w (dim_in this * dim_out this) host mem (elem sz w e) = host e)
         \<and> (\<forall>e < dim_out this.
               write_array sz w (dim_in this * dim_out this) host mem (elem sz b e)
                 = mem (elem sz b e))"
proof (intro conjI allI impI)
  show "load_to_storage sz this name host mem
           = Returned () (write_array sz w (dim_in this * dim_out this) host mem)"
    by (rule load_to_storage_weight [OF assms(1) assms(3) assms(5-7)])
  show "write_array sz w (dim_in this * dim_out this) host mem (elem sz w e) = host e"
    if "e < dim_in this * dim_out this" for e
    by (rule write_array_elem [OF assms(6) that])
  show "write_array sz w (dim_in this * dim_out this) host mem (elem sz b e) = mem (elem sz b e)"
    if "e < dim_out this" for e
  proof -
    have "elem sz b e \<in> byte_range b (dim_out this * sz)"
      by (rule elem_in_byte_range [OF assms(6) that])
    then have "elem sz b e \<notin> byte_range w (dim_in this * dim_out this * sz)"
      using assms(8) by blast
    then show ?thesis
      by (rule write_array_frame [OF assms(6)])
  qed
qed

theorem load_to_storage_weight_precedes_bias_witness:
  "sublist ''weight'' ''bias_weight'' \<and> sublist ''bias'' ''bias_weight''
   \<and> weight example_linear = Some 4096 \<and> bias example_linear = Some 4108
   \<and> dim_in example_linear * dim_out example_linear \<le> INT_MAX \<and> (0::nat) < 2
   \<and> (2::nat) \<le> 2 ^ 32
   \<and> byte_range 4096 (dim_in example_linear * dim_out example_linear * 2)
        \<inter> byte_range 4108 (dim_out example_linear * 2) = {}
   \<and> load_to_storage 2 example_linear ''bias_weight'' example_host example_mem
       = Returned () (write_array 2 4096 6 example_host example_mem)
   \<and> write_array 2 4096 6 example_host example_mem (elem 2 4096 5) = 12
   \<and> write_array 2 4096 6 example_host example_mem (elem 2 4108 2) = 4112"
proof -
  have s: "sublist ''weight'' ''bias_weight''" "sublist ''bias'' ''bias_weight''"
    by code_simp+
  have h: "weight example_linear = Some 4096" "bias example_linear = Some 4108"
    "dim_in example_linear * dim_out example_linear \<le> INT_MAX" "(0::nat) < 2"
    "(2::nat) \<le> 2 ^ 32"
    "byte_range 4096 (dim_in example_linear * dim_out example_linear * 2)
        \<inter> byte_range 4108 (dim_out example_linear * 2) = {}"
    by (simp_all add: example_linear_def INT_MAX_def byte_range_def)
  have d: "dim_in example_linear = 2" "dim_out example_linear = 3"
    by (simp_all add: example_linear_def)
  have v: "write_array 2 4096 6 example_host example_mem (elem 2 4096 5) = 12"
    "write_array 2 4096 6 example_host example_mem (elem 2 4108 2) = 4112"
    by (simp_all add: write_array_def example_host_def example_mem_def elem_def)
  show ?thesis
    using s h load_to_storage_weight_precedes_bias [OF s h, of example_host example_mem]
    by (simp add: d v)
qed

lemma load_to_storage_ignores_has_bias:
  "load_to_storage sz (this\<lparr>has_bias := x\<rparr>) name host mem = load_to_storage sz this name host mem"
  by (simp add: load_to_storage_def cong: option.case_cong)

lemma load_to_storage_bias_undefined:
  assumes "\<not> sublist ''weight'' name" and "sublist ''bias'' name" and "bias this = None"
  shows "load_to_storage sz this name host mem = Undefined"
proof -
  have "\<not> string_find name ''weight'' \<noteq> npos" "string_find name ''bias'' \<noteq> npos"
    using assms(1,2) by (simp_all only: string_find_sublist not_False_eq_True)
  then show ?thesis
    unfolding load_to_storage_def by (simp add: assms(3))
qed

lemma init_weight_ptr_with_bias:
  assumes "d_in * d_out \<le> INT_MAX" and "d_out \<le> INT_MAX" and "sz \<le> 2 ^ 32"
    and "model_used memory + d_in * d_out * sz + d_out * sz \<le> pool_capacity memory"
  shows "init_weight_ptr sz (Linear_ctor d_in d_out tr True) memory
         = Returned ()
             ((Linear_ctor d_in d_out tr True)
                \<lparr>weight := Some (model_base memory + model_used memory),
                 bias := Some (model_base memory + model_used memory + d_in * d_out * sz)\<rparr>,
              memory\<lparr>model_used := model_used memory + d_in * d_out * sz + d_out * sz\<rparr>)"
  using assms(4)
  unfolding init_weight_ptr_def Let_def
  by (simp add: Linear_ctor_def int_mul_Some [OF assms(1)] size_t_mul_exact [OF assms(1) assms(3)]
      size_t_mul_exact [OF assms(2) assms(3)] allocate_for_model_def add.assoc)

lemma init_weight_ptr_without_bias:
  assumes "d_in * d_out \<le> INT_MAX" and "sz \<le> 2 ^ 32"
    and "model_used memory + d_in * d_out * sz \<le> pool_capacity memory"
  shows "init_weight_ptr sz (Linear_ctor d_in d_out tr False) memory
         = Returned ()
             ((Linear_ctor d_in d_out tr False)
                \<lparr>weight := Some (model_base memory + model_used memory)\<rparr>,
              memory\<lparr>model_used := model_used memory + d_in * d_out * sz\<rparr>)"
  using assms(3)
  unfolding init_weight_ptr_def Let_def
  by (simp add: Linear_ctor_def int_mul_Some [OF assms(1)] size_t_mul_exact [OF assms(1) assms(2)]
      allocate_for_model_def)

text \<open>
  Claim C10. Take a projection as the constructor leaves it, run \<^verbatim>\<open>init_weight_ptr\<close> on
  it (with room in the pool), and then load under a name that takes the \<^verbatim>\<open>"bias"\<close>
  branch: it contains \<^verbatim>\<open>"bias"\<close> and not \<^verbatim>\<open>"weight"\<close>. If the projection was constructed
  with \<^verbatim>\<open>has_bias\<close>, the bias member points to the \<open>dim_out * sizeof(T)\<close> bytes that
  \<^verbatim>\<open>init_weight_ptr\<close> took from the model region right after the weight, and the load
  copies \<open>dim_out\<close> elements there. If it was constructed without, the bias member was
  never assigned, nothing was allocated for it, and the load is undefined: the target
  of the copy is well-defined exactly when \<^verbatim>\<open>has_bias\<close> holds. The load does not look at
  \<^verbatim>\<open>has_bias\<close>: flipping the flag afterwards changes nothing.
\<close>

theorem bias_load_defined_iff_has_bias:
  assumes "sublist ''bias'' name" and "\<not> sublist ''weight'' name"
    and "d_in * d_out \<le> INT_MAX" and "d_out \<le> INT_MAX" and "0 < sz" and "sz \<le> 2 ^ 32"
    and "model_used memory + d_in * d_out * sz + d_out * sz \<le> pool_capacity memory"
  shows "\<exists>this' memory'.
           init_weight_ptr sz (Linear_ctor d_in d_out tr hb) memory = Returned () (this', memory')
           \<and> (if hb then
                 bias this' = Some (model_base memory + model_used memory + d_in * d_out * sz)
                 \<and> model_used memory' = model_used memory + d_in * d_out * sz + d_out * sz
                 \<and> load_to_storage sz this' name host mem
                     = Returned ()
                         (write_array sz (model_base memory + model_used memory + d_in * d_out * sz)
                            d_out host mem)
               else
                 bias this' = None
                 \<and> model_used memory' = model_used memory + d_in * d_out * sz
                 \<and> load_to_storage sz this' name host mem = Undefined)
           \<and> load_to_storage sz (this'\<lparr>has_bias := \<not> hb\<rparr>) name host mem
               = load_to_storage sz this' name host mem"
proof (cases hb)
  case True
  let ?b = "model_base memory + model_used memory + d_in * d_out * sz"
  let ?L = "(Linear_ctor d_in d_out tr True)
                \<lparr>weight := Some (model_base memory + model_used memory), bias := Some ?b\<rparr>"
  have b: "bias ?L = Some ?b" and d: "dim_out ?L \<le> INT_MAX"
    using assms(4) by (simp_all add: Linear_ctor_def)
  have "load_to_storage sz ?L name host mem = Returned () (write_array sz ?b d_out host mem)"
    using load_to_storage_bias [OF assms(2) assms(1) b d assms(5) assms(6), of host mem]
    by (simp add: Linear_ctor_def)
  with True show ?thesis
    by (simp add: init_weight_ptr_with_bias [OF assms(3) assms(4) assms(6) assms(7)]
        load_to_storage_ignores_has_bias)
next
  case False
  let ?L = "(Linear_ctor d_in d_out tr False)
                \<lparr>weight := Some (model_base memory + model_used memory)\<rparr>"
  have room: "model_used memory + d_in * d_out * sz \<le> pool_capacity memory"
    using assms(7) by simp
  have b: "bias ?L = None"
    by (simp add: Linear_ctor_def)
  have "load_to_storage sz ?L name host mem = Undefined"
    by (rule load_to_storage_bias_undefined [OF assms(2) assms(1) b])
  with False show ?thesis
    by (simp add: init_weight_ptr_without_bias [OF assms(3) assms(6) room]
        load_to_storage_ignores_has_bias) (simp add: Linear_ctor_def)
qed

theorem bias_load_defined_iff_has_bias_witness:
  "sublist ''bias'' ''lm_head.bias'' \<and> \<not> sublist ''weight'' ''lm_head.bias''
   \<and> (2::nat) * 3 \<le> INT_MAX \<and> (3::nat) \<le> INT_MAX \<and> (0::nat) < 2 \<and> (2::nat) \<le> 2 ^ 32
   \<and> model_used example_memory + 2 * 3 * 2 + 3 * 2 \<le> pool_capacity example_memory
   \<and> (\<exists>this' memory'.
         init_weight_ptr 2 (Linear_ctor 2 3 True True) example_memory = Returned () (this', memory')
         \<and> bias this' = Some 4108 \<and> model_used memory' = 18
         \<and> load_to_storage 2 this' ''lm_head.bias'' example_host example_mem
             = Returned () (write_array 2 4108 3 example_host example_mem))
   \<and> (\<exists>this' memory'.
         init_weight_ptr 2 (Linear_ctor 2 3 True False) example_memory = Returned () (this', memory')
         \<and> bias this' = None \<and> model_used memory' = 12
         \<and> load_to_storage 2 this' ''lm_head.bias'' example_host example_mem = Undefined)"
proof -
  have s: "sublist ''bias'' ''lm_head.bias''" "\<not> sublist ''weight'' ''lm_head.bias''"
    by code_simp+
  have h: "(2::nat) * 3 \<le> INT_MAX" "(3::nat) \<le> INT_MAX" "(0::nat) < 2" "(2::nat) \<le> 2 ^ 32"
    "model_used example_memory + 2 * 3 * 2 + 3 * 2 \<le> pool_capacity example_memory"
    by (simp_all add: INT_MAX_def example_memory_def)
  have m: "model_base example_memory = 4096" "model_used example_memory = 0"
    by (simp_all add: example_memory_def)
  note t = bias_load_defined_iff_has_bias [OF s h, where tr = True and host = example_host
      and mem = example_mem]
  have a: "\<exists>this' memory'.
         init_weight_ptr 2 (Linear_ctor 2 3 True True) example_memory = Returned () (this', memory')
         \<and> bias this' = Some 4108 \<and> model_used memory' = 18
         \<and> load_to_storage 2 this' ''lm_head.bias'' example_host example_mem
             = Returned () (write_array 2 4108 3 example_host example_mem)"
    using t [of True] by (auto simp: m)
  have b: "\<exists>this' memory'.
         init_weight_ptr 2 (Linear_ctor 2 3 True False) example_memory = Returned () (this', memory')
         \<and> bias this' = None \<and> model_used memory' = 12
         \<and> load_to_storage 2 this' ''lm_head.bias'' example_host example_mem = Undefined"
    using t [of False] by (auto simp: m)
  show ?thesis
    using s h a b by simp
qed

section \<open>The scratch allocation and the output pointers\<close>

lemma allocate_all_slots:
  "allocate_all memory reqs slots offset
   = (slots ++ fst (allocate_all memory reqs Map.empty offset),
      snd (allocate_all memory reqs Map.empty offset))"
proof (induction reqs arbitrary: slots offset)
  case Nil
  show ?case by simp
next
  case (Cons r reqs)
  obtain slot byte_size where r: "r = (slot, byte_size)" by (cases r)
  let ?p = "scratch_base memory + offset"
  let ?next = "round_up (offset + byte_size) (alignment memory)"
  let ?B = "fst (allocate_all memory reqs Map.empty ?next)"
  have step: "allocate_all memory (r # reqs) s offset
              = allocate_all memory reqs (s(slot \<mapsto> ?p)) ?next" for s
    unfolding r by (simp add: allocate_def)
  have 1: "allocate_all memory (r # reqs) slots offset
           = (slots(slot \<mapsto> ?p) ++ ?B, snd (allocate_all memory reqs Map.empty ?next))"
    unfolding step by (rule Cons.IH)
  have 2: "allocate_all memory (r # reqs) Map.empty offset
           = (Map.empty(slot \<mapsto> ?p) ++ ?B, snd (allocate_all memory reqs Map.empty ?next))"
    unfolding step by (rule Cons.IH)
  have "slots(slot \<mapsto> ?p) ++ ?B = slots ++ (Map.empty(slot \<mapsto> ?p) ++ ?B)"
    by (simp add: map_add_upd_left fun_eq_iff map_add_def split: option.split)
  then show ?case
    unfolding 1 2 by simp
qed

lemma allocate_all_offsets:
  "alignment memory' = alignment memory \<Longrightarrow>
     snd (allocate_all memory' reqs slots' offset) = snd (allocate_all memory reqs slots offset)"
proof (induction reqs arbitrary: slots slots' offset)
  case Nil
  show ?case by simp
next
  case (Cons r reqs)
  obtain slot byte_size where r: "r = (slot, byte_size)" by (cases r)
  show ?case
    unfolding r using Cons.prems by (simp add: allocate_def Cons.IH)
qed

lemma allocate_all_idempotent:
  "allocate_all memory reqs (fst (allocate_all memory reqs slots offset)) offset
   = allocate_all memory reqs slots offset"
proof -
  let ?B = "fst (allocate_all memory reqs Map.empty offset)"
  have "allocate_all memory reqs (slots ++ ?B) offset
        = ((slots ++ ?B) ++ ?B, snd (allocate_all memory reqs Map.empty offset))"
    by (rule allocate_all_slots)
  moreover have "(slots ++ ?B) ++ ?B = slots ++ ?B"
    by (simp add: fun_eq_iff map_add_def split: option.split)
  ultimately show ?thesis
    by (simp add: allocate_all_slots [of memory reqs slots offset])
qed

text \<open>
  Claim C4. For every current offset and byte size, the scratch allocation binds the
  slot to \<open>scratch_base + current_offset\<close> and returns \<open>current_offset + byte_size\<close>
  rounded up to the alignment boundary: the least multiple of the alignment that is not
  below it. It is arithmetic on addresses: \<open>allocate\<close> neither takes nor returns device
  memory. Replaying a sequence of allocation calls gives the same offsets, whatever the
  slots held and wherever the scratch region lies (the offsets depend on the sizes, the
  start and the alignment alone), and replaying it over the slots that a first pass
  left changes nothing.
\<close>

theorem allocate_next_offset:
  assumes "0 < alignment memory"
  shows "fst (allocate memory offset byte_size) = scratch_base memory + offset
       \<and> offset + byte_size \<le> snd (allocate memory offset byte_size)
       \<and> snd (allocate memory offset byte_size) < offset + byte_size + alignment memory
       \<and> alignment memory dvd snd (allocate memory offset byte_size)
       \<and> (alignment memory' = alignment memory \<longrightarrow>
            snd (allocate_all memory' reqs slots' start) = snd (allocate_all memory reqs slots start))
       \<and> allocate_all memory reqs (fst (allocate_all memory reqs slots start)) start
            = allocate_all memory reqs slots start"
  using round_up_ge [OF assms, of "offset + byte_size"]
    round_up_less [OF assms, of "offset + byte_size"]
    round_up_dvd [of "alignment memory" "offset + byte_size"]
    allocate_all_offsets [of memory' memory reqs slots' start slots]
    allocate_all_idempotent [of memory reqs slots start]
  by (simp add: allocate_def)

theorem allocate_next_offset_witness:
  "0 < alignment example_memory
   \<and> fst (allocate example_memory 100 300) = scratch_base example_memory + 100
   \<and> 100 + 300 \<le> snd (allocate example_memory 100 300)
   \<and> snd (allocate example_memory 100 300) < 100 + 300 + alignment example_memory
   \<and> alignment example_memory dvd snd (allocate example_memory 100 300)
   \<and> snd (allocate_all (example_memory\<lparr>scratch_base := 0\<rparr>)
             [(''output'', 24), (''tmp_hidden_size'', 16)] Map.empty 256)
       = snd (allocate_all example_memory [(''output'', 24), (''tmp_hidden_size'', 16)]
                [''output'' \<mapsto> 5] 256)
   \<and> allocate_all example_memory [(''output'', 24), (''tmp_hidden_size'', 16)]
         (fst (allocate_all example_memory [(''output'', 24), (''tmp_hidden_size'', 16)]
                 [''output'' \<mapsto> 5] 256)) 256
       = allocate_all example_memory [(''output'', 24), (''tmp_hidden_size'', 16)]
           [''output'' \<mapsto> 5] 256
   \<and> allocate example_memory 100 300 = (8292, 512)"
proof -
  have h: "0 < alignment example_memory"
    by (simp add: example_memory_def)
  have e: "alignment (example_memory\<lparr>scratch_base := 0\<rparr>) = alignment example_memory"
    by simp
  have v: "allocate example_memory 100 300 = (8292, 512)"
    by (simp add: allocate_def example_memory_def round_up_def)
  show ?thesis
    using h v e
      allocate_next_offset [OF h, where offset = 100 and byte_size = 300
        and memory' = "example_memory\<lparr>scratch_base := 0\<rparr>"
        and reqs = "[(''output'', 24), (''tmp_hidden_size'', 16)]"
        and slots' = Map.empty and start = 256 and slots = "[''output'' \<mapsto> 5]"]
    by simp
qed

lemma allocate_successive_disjoint:
  assumes "0 < alignment memory"
    and "allocate memory offset s1 = (p1, next)" and "allocate memory next s2 = (p2, next2)"
  shows "byte_range p1 s1 \<inter> byte_range p2 s2 = {}" and "offset + s1 + s2 \<le> next2"
proof -
  have p1: "p1 = scratch_base memory + offset" and n: "next = round_up (offset + s1) (alignment memory)"
    and p2: "p2 = scratch_base memory + next" and n2: "next2 = round_up (next + s2) (alignment memory)"
    using assms(2,3) by (simp_all add: allocate_def)
  have a: "offset + s1 \<le> next"
    unfolding n by (rule round_up_ge [OF assms(1)])
  have b: "next + s2 \<le> next2"
    unfolding n2 by (rule round_up_ge [OF assms(1)])
  show "byte_range p1 s1 \<inter> byte_range p2 s2 = {}"
    using a unfolding p1 p2 byte_range_def by auto
  show "offset + s1 + s2 \<le> next2"
    using a b by linarith
qed

lemma allocations_lower_bound:
  assumes "0 < alignment memory"
  shows "b \<in> set (allocations memory sizes offset) \<Longrightarrow> scratch_base memory + offset \<le> fst b"
proof (induction sizes arbitrary: offset)
  case Nil
  then show ?case by simp
next
  case (Cons s sizes)
  let ?next = "round_up (offset + s) (alignment memory)"
  have unfold: "allocations memory (s # sizes) offset
                = (scratch_base memory + offset, s) # allocations memory sizes ?next"
    by (simp add: allocate_def)
  show ?case
  proof (cases "b = (scratch_base memory + offset, s)")
    case True
    then show ?thesis by simp
  next
    case False
    with Cons.prems have "b \<in> set (allocations memory sizes ?next)"
      unfolding unfold by simp
    then have "scratch_base memory + ?next \<le> fst b"
      by (rule Cons.IH)
    moreover have "offset + s \<le> ?next"
      by (rule round_up_ge [OF assms])
    ultimately show ?thesis by linarith
  qed
qed

lemma length_allocations: "length (allocations memory sizes offset) = length sizes"
  by (induction sizes arbitrary: offset) (simp_all add: allocate_def)

lemma allocations_disjoint:
  assumes "0 < alignment memory"
  shows "i < j \<Longrightarrow> j < length sizes \<Longrightarrow>
     byte_range (fst (allocations memory sizes offset ! i)) (snd (allocations memory sizes offset ! i))
     \<inter> byte_range (fst (allocations memory sizes offset ! j)) (snd (allocations memory sizes offset ! j))
     = {}"
proof (induction sizes arbitrary: offset i j)
  case Nil
  then show ?case by simp
next
  case (Cons s sizes)
  let ?next = "round_up (offset + s) (alignment memory)"
  let ?tail = "allocations memory sizes ?next"
  have unfold: "allocations memory (s # sizes) offset = (scratch_base memory + offset, s) # ?tail"
    by (simp add: allocate_def)
  obtain j' where j: "j = Suc j'" and j': "j' < length sizes"
    using Cons.prems by (cases j) simp_all
  show ?case
  proof (cases i)
    case 0
    have "?tail ! j' \<in> set ?tail"
      using j' by (simp add: length_allocations)
    then have "scratch_base memory + ?next \<le> fst (?tail ! j')"
      by (rule allocations_lower_bound [OF assms])
    moreover have "offset + s \<le> ?next"
      by (rule round_up_ge [OF assms])
    ultimately have "scratch_base memory + offset + s \<le> fst (?tail ! j')"
      by linarith
    then show ?thesis
      unfolding unfold 0 j byte_range_def by auto
  next
    case (Suc i')
    with Cons.prems j have "i' < j'" by simp
    then show ?thesis
      unfolding unfold Suc j using Cons.IH [OF _ j'] by simp
  qed
qed

text \<open>
  Claim C8. The buffers that successive scratch allocation calls hand out do not
  overlap: any two of them, each taken with the byte size that was asked for, are
  disjoint. In particular, for every \<open>num_tokens\<close> and starting offset (with \<^verbatim>\<open>int\<close>
  products that do not overflow), \<^verbatim>\<open>LMHead::init_output_ptr\<close> binds the output buffer
  (\<open>num_tokens * dim_out\<close> elements) and the temporary buffer (\<open>num_tokens * dim_in\<close>
  elements) to disjoint byte ranges, and the offset it returns is at least the starting
  offset plus the two byte sizes.
\<close>

theorem LMHead_init_output_ptr_disjoint:
  fixes this :: "'a LMHead"
  assumes "0 < alignment memory"
    and "n * dim_out this \<le> INT_MAX" and "n * dim_in this \<le> INT_MAX" and "sz \<le> 2 ^ 32"
  shows "(\<forall>i j. i < j \<and> j < length sizes \<longrightarrow>
            byte_range (fst (allocations memory sizes start ! i))
                       (snd (allocations memory sizes start ! i))
            \<inter> byte_range (fst (allocations memory sizes start ! j))
                         (snd (allocations memory sizes start ! j)) = {})
       \<and> (\<exists>this' next out tmp.
           LMHead_init_output_ptr sz this memory n offset = Returned next this'
           \<and> output this' = Some out \<and> tmp_hidden_size this' = Some tmp
           \<and> out = scratch_base memory + offset
           \<and> byte_range out (n * dim_out this * sz) \<inter> byte_range tmp (n * dim_in this * sz) = {}
           \<and> offset + n * dim_out this * sz + n * dim_in this * sz \<le> next)"
proof (rule conjI)
  show "\<forall>i j. i < j \<and> j < length sizes \<longrightarrow>
            byte_range (fst (allocations memory sizes start ! i))
                       (snd (allocations memory sizes start ! i))
            \<inter> byte_range (fst (allocations memory sizes start ! j))
                         (snd (allocations memory sizes start ! j)) = {}"
    using allocations_disjoint [OF assms(1)] by blast
next
  let ?s1 = "n * dim_out this * sz" and ?s2 = "n * dim_in this * sz"
  obtain p1 next1 where a1: "allocate memory offset ?s1 = (p1, next1)"
    by (cases "allocate memory offset ?s1")
  obtain p2 next2 where a2: "allocate memory next1 ?s2 = (p2, next2)"
    by (cases "allocate memory next1 ?s2")
  have "LMHead_init_output_ptr sz this memory n offset
        = Returned next2 (this\<lparr>output := Some p1, tmp_hidden_size := Some p2\<rparr>)"
    unfolding LMHead_init_output_ptr_def init_output_ptr_def
    by (simp add: int_mul_Some [OF assms(2)] int_mul_Some [OF assms(3)]
        size_t_mul_exact [OF assms(2) assms(4)] size_t_mul_exact [OF assms(3) assms(4)] a1 a2)
  moreover have "p1 = scratch_base memory + offset"
    using a1 by (simp add: allocate_def)
  ultimately show "\<exists>this' next out tmp.
           LMHead_init_output_ptr sz this memory n offset = Returned next this'
           \<and> output this' = Some out \<and> tmp_hidden_size this' = Some tmp
           \<and> out = scratch_base memory + offset
           \<and> byte_range out (n * dim_out this * sz) \<inter> byte_range tmp (n * dim_in this * sz) = {}
           \<and> offset + n * dim_out this * sz + n * dim_in this * sz \<le> next"
    using allocate_successive_disjoint [OF assms(1) a1 a2] by simp
qed

theorem LMHead_init_output_ptr_disjoint_witness:
  "0 < alignment example_memory
   \<and> 4 * dim_out (LMHead_ctor 2 3 (5::int) True True) \<le> INT_MAX
   \<and> 4 * dim_in (LMHead_ctor 2 3 (5::int) True True) \<le> INT_MAX \<and> (2::nat) \<le> 2 ^ 32
   \<and> allocations example_memory [24, 16, 300] 256
       = [(8448, 24), (8704, 16), (8960, 300)]
   \<and> byte_range (fst (allocations example_memory [24, 16, 300] 256 ! 0))
                 (snd (allocations example_memory [24, 16, 300] 256 ! 0))
       \<inter> byte_range (fst (allocations example_memory [24, 16, 300] 256 ! 2))
                    (snd (allocations example_memory [24, 16, 300] 256 ! 2)) = {}
   \<and> LMHead_init_output_ptr 2 (LMHead_ctor 2 3 (5::int) True True) example_memory 4 256
       = Returned 768 ((LMHead_ctor 2 3 5 True True)
           \<lparr>output := Some 8448, tmp_hidden_size := Some 8704\<rparr>)
   \<and> byte_range 8448 (4 * 3 * 2) \<inter> byte_range 8704 (4 * 2 * 2) = {}
   \<and> 256 + 4 * 3 * 2 + 4 * 2 * 2 \<le> (768::nat)"
proof -
  have h: "0 < alignment example_memory"
    "4 * dim_out (LMHead_ctor 2 3 (5::int) True True) \<le> INT_MAX"
    "4 * dim_in (LMHead_ctor 2 3 (5::int) True True) \<le> INT_MAX" "(2::nat) \<le> 2 ^ 32"
    by (simp_all add: example_memory_def LMHead_ctor_def INT_MAX_def)
  have v: "allocations example_memory [24, 16, 300] 256
       = [(8448, 24), (8704, 16), (8960, 300)]"
    by (simp add: allocate_def example_memory_def round_up_def)
  have r: "LMHead_init_output_ptr 2 (LMHead_ctor 2 3 (5::int) True True) example_memory 4 256
       = Returned 768 ((LMHead_ctor 2 3 5 True True)
           \<lparr>output := Some 8448, tmp_hidden_size := Some 8704\<rparr>)"
    by (simp add: LMHead_init_output_ptr_def init_output_ptr_def LMHead_ctor_def
        example_memory_def allocate_def round_up_def int_mul_def size_t_mul_def INT_MAX_def)
  note t = LMHead_init_output_ptr_disjoint [OF h, where sizes = "[24, 16, 300]" and start = 256
      and offset = 256]
  have d: "byte_range (fst (allocations example_memory [24, 16, 300] 256 ! 0))
                 (snd (allocations example_memory [24, 16, 300] 256 ! 0))
       \<inter> byte_range (fst (allocations example_memory [24, 16, 300] 256 ! 2))
                    (snd (allocations example_memory [24, 16, 300] 256 ! 2)) = {}"
    using t by simp
  have "byte_range 8448 (4 * 3 * 2) \<inter> byte_range 8704 (4 * 2 * 2) = {}
        \<and> 256 + 4 * 3 * 2 + 4 * 2 * 2 \<le> (768::nat)"
    using t unfolding r by (simp add: LMHead_ctor_def)
  with h v d r show ?thesis
    by simp
qed

section \<open>Properties of the Marlin kernel instantiations\<close>

lemmas marlin_macro_defs =
  marlin_instantiations_def MARLIN_INST_CONFIG_def MARLIN_INST_QTYPE_def
  MARLIN_INST_ALL_SPLITS_def MARLIN_INST_SPLIT_def Marlin_def

subsection \<open>Membership in the expansions\<close>

lemma in_MARLIN_INST_SPLIT:
  "v \<in> set (MARLIN_INST_SPLIT d q bs s wm wn ps) \<longleftrightarrow>
     (\<exists>g \<in> {- 1, 2, 4, 8}. v = Marlin d q bs s wm wn ps False True g)"
  by (auto simp: MARLIN_INST_SPLIT_def)

lemma in_MARLIN_INST_ALL_SPLITS:
  "v \<in> set (MARLIN_INST_ALL_SPLITS d q bs wm wn ps) \<longleftrightarrow>
     (\<exists>s \<in> {1, 2, 3, 4}. \<exists>g \<in> {- 1, 2, 4, 8}. v = Marlin d q bs s wm wn ps False True g)"
  by (simp add: MARLIN_INST_ALL_SPLITS_def in_MARLIN_INST_SPLIT)

lemma in_MARLIN_INST_QTYPE:
  "v \<in> set (MARLIN_INST_QTYPE d bs wm wn ps) \<longleftrightarrow>
     (\<exists>q \<in> {kU4, kU8}. \<exists>s \<in> {1, 2, 3, 4}. \<exists>g \<in> {- 1, 2, 4, 8}.
        v = Marlin d q bs s wm wn ps False True g)"
  by (simp add: MARLIN_INST_QTYPE_def in_MARLIN_INST_ALL_SPLITS)

lemma in_marlin_instantiations:
  "v \<in> set (marlin_instantiations True) \<longleftrightarrow>
     (\<exists>(bs, wm, wn) \<in> block_warp_shapes. \<exists>q \<in> {kU4, kU8}. \<exists>s \<in> {1, 2, 3, 4}.
        \<exists>g \<in> {- 1, 2, 4, 8}. v = Marlin nv_bfloat16 q bs s wm wn 4 False True g)"
  by (simp add: marlin_instantiations_def MARLIN_INST_CONFIG_def in_MARLIN_INST_QTYPE
      block_warp_shapes_def)

lemma eq_Marlin_iff:
  "(v :: marlin_inst) = Marlin d q bs s wm wn ps a8 a9 g \<longleftrightarrow>
     dtype v = d \<and> qtype v = q \<and> block_size v = bs \<and> split v = s \<and> warp_m v = wm \<and>
     warp_n v = wn \<and> pack_size v = ps \<and> arg8 v = a8 \<and> arg9 v = a9 \<and> group_size v = g"
  by (cases v) (auto simp: Marlin_def)

lemma in_marlin_instantiations_fields:
  "(v :: marlin_inst) \<in> set (marlin_instantiations True) \<longleftrightarrow>
     dtype v = nv_bfloat16 \<and> qtype v \<in> {kU4, kU8} \<and>
     (block_size v, warp_m v, warp_n v) \<in> block_warp_shapes \<and> split v \<in> {1, 2, 3, 4} \<and>
     group_size v \<in> {- 1, 2, 4, 8} \<and> pack_size v = 4 \<and> \<not> arg8 v \<and> arg9 v"
  unfolding in_marlin_instantiations eq_Marlin_iff
  by (simp add: block_warp_shapes_def Bex_def) blast

lemma marlin_instantiations_disabled: "marlin_instantiations False = []"
  by (simp add: marlin_instantiations_def)

lemma length_marlin_instantiations: "length (marlin_instantiations True) = 128"
  unfolding marlin_macro_defs by simp

text \<open>
  Claim C6. With \<^verbatim>\<open>ENABLE_DTYPE_BF16\<close> defined, the instantiated kernels are exactly the
  cross product of the four block size and warp tiling triples (256,16,4), (256,8,8),
  (128,8,4), (128,4,8), the split arguments 1, 2, 3, 4, the quantization types
  \<^verbatim>\<open>kU4\<close> and \<^verbatim>\<open>kU8\<close> and the group-size arguments -1, 2, 4, 8 (all with element
  type \<^verbatim>\<open>__nv_bfloat16\<close>, pack-size argument 4 and the flags false, true); and no
  combination is instantiated twice.
\<close>

theorem marlin_instantiations_cross_product:
  "set (marlin_instantiations True) =
     {Marlin nv_bfloat16 q bs s wm wn 4 False True g | q bs s wm wn g.
        (bs, wm, wn) \<in> block_warp_shapes \<and> s \<in> {1, 2, 3, 4} \<and> q \<in> {kU4, kU8} \<and>
        g \<in> {- 1, 2, 4, 8}}
   \<and> distinct (marlin_instantiations True)"
proof
  show "set (marlin_instantiations True) =
     {Marlin nv_bfloat16 q bs s wm wn 4 False True g | q bs s wm wn g.
        (bs, wm, wn) \<in> block_warp_shapes \<and> s \<in> {1, 2, 3, 4} \<and> q \<in> {kU4, kU8} \<and>
        g \<in> {- 1, 2, 4, 8}}"
    (is "?L = ?R")
  proof (rule set_eqI)
    fix v
    show "v \<in> ?L \<longleftrightarrow> v \<in> ?R"
      unfolding in_marlin_instantiations by blast
  qed
  show "distinct (marlin_instantiations True)"
    unfolding marlin_macro_defs by simp
qed

text \<open>
  Claim C7, as stated, fails: the variants for \<^verbatim>\<open>kU4\<close> and \<^verbatim>\<open>kU8\<close> with block size
  256, split 1, warp tiling (16,4) and group size -1 are both instantiated, they differ
  in the quantization type only, and their pack-size arguments are equal.
  \<^verbatim>\<open>MARLIN_INST_QTYPE\<close> hands one and the same \<^verbatim>\<open>pack_size\<close> to both quantization types.
\<close>

theorem marlin_pack_size_differs_counterexample:
  "Marlin nv_bfloat16 kU4 256 1 16 4 4 False True (- 1) \<in> set (marlin_instantiations True)
   \<and> Marlin nv_bfloat16 kU8 256 1 16 4 4 False True (- 1) \<in> set (marlin_instantiations True)
   \<and> Marlin nv_bfloat16 kU8 256 1 16 4 4 False True (- 1)
       = (Marlin nv_bfloat16 kU4 256 1 16 4 4 False True (- 1))\<lparr>qtype := kU8\<rparr>
   \<and> pack_size (Marlin nv_bfloat16 kU4 256 1 16 4 4 False True (- 1))
       = pack_size (Marlin nv_bfloat16 kU8 256 1 16 4 4 False True (- 1))"
  by (simp add: in_marlin_instantiations_fields eq_Marlin_iff block_warp_shapes_def)
    (simp add: Marlin_def)

text \<open>
  Claim C7, amended. The 4-bit and 8-bit variants are instantiated with the same
  pack-size argument: every instantiated variant has pack size 4, and with every
  instantiated variant the one that differs from it in the quantization type only is
  instantiated too (so it has that same pack size).
\<close>

theorem marlin_pack_size_shared:
  "v \<in> set (marlin_instantiations True) \<Longrightarrow>
     pack_size v = 4 \<and> v\<lparr>qtype := q\<rparr> \<in> set (marlin_instantiations True) \<and>
     pack_size (v\<lparr>qtype := q\<rparr>) = pack_size v"
  by (cases q) (simp_all add: in_marlin_instantiations_fields)

theorem marlin_pack_size_shared_witness:
  "Marlin nv_bfloat16 kU4 128 3 4 8 4 False True 2 \<in> set (marlin_instantiations True)
   \<and> pack_size (Marlin nv_bfloat16 kU4 128 3 4 8 4 False True 2) = 4
   \<and> (Marlin nv_bfloat16 kU4 128 3 4 8 4 False True 2)\<lparr>qtype := kU8\<rparr>
        \<in> set (marlin_instantiations True)
   \<and> pack_size ((Marlin nv_bfloat16 kU4 128 3 4 8 4 False True 2)\<lparr>qtype := kU8\<rparr>)
        = pack_size (Marlin nv_bfloat16 kU4 128 3 4 8 4 False True 2)"
proof -
  have h: "Marlin nv_bfloat16 kU4 128 3 4 8 4 False True 2 \<in> set (marlin_instantiations True)"
    by (simp add: in_marlin_instantiations_fields eq_Marlin_iff block_warp_shapes_def)
      (simp add: Marlin_def)
  show ?thesis
    using h marlin_pack_size_shared [OF h, of kU8] by simp
qed

end
